theory Spec2Isabelle
  imports Complex_Main "HOL-Library.Sublist" "HOL-Library.Code_Target_Nat"
begin

text \<open>
  A model of the transaction service: the routes that list, count and group the sold
  products of a month (\<^verbatim>\<open>src/server/src/models.js\<close>, which holds the schema and the
  routes) and the startup of the server (\<^verbatim>\<open>src/server/src/server.js\<close>). The definitions
  come first, each next to the code it renders; the properties follow.
\<close>

section \<open>Values of the runtime\<close>

text \<open>
  The month table of the routes is an object literal, and the handlers read it with
  \<^verbatim>\<open>monthMap[month]\<close>. Such a read yields a number for the twelve keys of the literal,
  an object for a key that the literal inherits from \<^verbatim>\<open>Object.prototype\<close>, and
  \<^verbatim>\<open>undefined\<close> for every other key.
\<close>

datatype jsval = Undefined | Number int | Object

text \<open>The test \<^verbatim>\<open>!v\<close> of the handlers is the negation of \<open>truthy\<close>: zero is falsy.\<close>

definition truthy :: "jsval \<Rightarrow> bool" where
  "truthy v = (case v of Undefined \<Rightarrow> False | Number n \<Rightarrow> n \<noteq> 0 | Object \<Rightarrow> True)"

text \<open>\<^verbatim>\<open>ToNumber\<close>; \<open>None\<close> is NaN.\<close>

definition ToNumber :: "jsval \<Rightarrow> int option" where
  "ToNumber v = (case v of Number n \<Rightarrow> Some n | Undefined \<Rightarrow> None | Object \<Rightarrow> None)"

text \<open>
  \<^verbatim>\<open>ToNumber(v + 1)\<close>: a number plus one; \<^verbatim>\<open>undefined + 1\<close> is NaN, and an object plus
  one is a string that is no numeral.
\<close>

definition plus_one :: "jsval \<Rightarrow> int option" where
  "plus_one v = (case v of Number n \<Rightarrow> Some (n + 1) | Undefined \<Rightarrow> None | Object \<Rightarrow> None)"

text \<open>
  Strings are ASCII texts. \<^verbatim>\<open>toLowerCase\<close> and the case folding of a regular expression
  with flag \<^verbatim>\<open>i\<close> change the letters A to Z and nothing else.
\<close>

definition lower_char :: "char \<Rightarrow> char" where
  "lower_char c =
     (case map_of (zip ''ABCDEFGHIJKLMNOPQRSTUVWXYZ'' ''abcdefghijklmnopqrstuvwxyz'') c of
        Some l \<Rightarrow> l
      | None \<Rightarrow> c)"

definition toLowerCase :: "string \<Rightarrow> string" where
  "toLowerCase s = map lower_char s"

section \<open>Month resolution\<close>

definition monthTable :: "(string \<times> int) list" where
  "monthTable =
     [(''january'', 0), (''february'', 1), (''march'', 2), (''april'', 3),
      (''may'', 4), (''june'', 5), (''july'', 6), (''august'', 7),
      (''september'', 8), (''october'', 9), (''november'', 10), (''december'', 11)]"

text \<open>
  Of the properties of \<^verbatim>\<open>Object.prototype\<close> only \<^verbatim>\<open>constructor\<close> and \<^verbatim>\<open>__proto__\<close> are
  spelled without a capital letter, so only they can be read with a lowercased key.
\<close>

definition monthMap :: "string \<Rightarrow> jsval" where
  "monthMap key =
     (case map_of monthTable key of
        Some i \<Rightarrow> Number i
      | None \<Rightarrow> if key = ''constructor'' \<or> key = ''__proto__'' then Object else Undefined)"

section \<open>Dates\<close>

text \<open>
  A date is its time value, the milliseconds since the epoch; \<open>None\<close> is an Invalid Date.
  The day arithmetic follows the language standard: \<open>DayFromYear\<close> is the day number of
  the first of January, \<open>MakeDay\<close> accepts a month index outside 0 to 11 and a day of the
  month below 1 and carries them over.
\<close>

type_synonym jsdate = "int option"

definition msPerDay :: int where
  "msPerDay = 86400000"

definition DaysInYear :: "int \<Rightarrow> int" where
  "DaysInYear y =
     (if y mod 4 \<noteq> 0 then 365 else if y mod 100 \<noteq> 0 then 366
      else if y mod 400 \<noteq> 0 then 365 else 366)"

definition DayFromYear :: "int \<Rightarrow> int" where
  "DayFromYear y =
     365 * (y - 1970) + (y - 1969) div 4 - (y - 1901) div 100 + (y - 1601) div 400"

text \<open>The day within the year on which month \<open>m\<close> (0 to 11) begins.\<close>

definition month_start :: "int \<Rightarrow> int \<Rightarrow> int" where
  "month_start y m =
     (let leap = (if DaysInYear y = 366 then 1 else 0) in
      if m = 0 then 0 else if m = 1 then 31 else if m = 2 then 59 + leap
      else if m = 3 then 90 + leap else if m = 4 then 120 + leap
      else if m = 5 then 151 + leap else if m = 6 then 181 + leap
      else if m = 7 then 212 + leap else if m = 8 then 243 + leap
      else if m = 9 then 273 + leap else if m = 10 then 304 + leap
      else 334 + leap)"

definition MakeDay :: "int \<Rightarrow> int \<Rightarrow> int \<Rightarrow> int" where
  "MakeDay yr month date =
     (let ym = yr + month div 12; mn = month mod 12
      in DayFromYear ym + month_start ym mn + date - 1)"

definition TimeClip :: "int \<Rightarrow> jsdate" where
  "TimeClip t = (if \<bar>t\<bar> \<le> 8640000000000000 then Some t else None)"

text \<open>
  What a call reads from its surroundings: the value of \<^verbatim>\<open>new Date().getFullYear()\<close> and
  the offset of local time from UTC in milliseconds. The offset is one number, the same on
  every date: the clock is that of a zone without daylight saving time, such as UTC.
\<close>

record env =
  year :: int
  tz :: int

text \<open>
  \<^verbatim>\<open>new Date(year, month, day)\<close>: midnight of that day in local time. A month that is
  not a number gives an Invalid Date; a year from 0 to 99 counts from 1900.
\<close>

definition newDate :: "env \<Rightarrow> int option \<Rightarrow> int \<Rightarrow> jsdate" where
  "newDate e month day =
     (case month of
        None \<Rightarrow> None
      | Some m \<Rightarrow>
          let y = year e; yr = (if 0 \<le> y \<and> y \<le> 99 then 1900 + y else y)
          in TimeClip (MakeDay yr m day * msPerDay - tz e))"

definition getStartEndDate :: "env \<Rightarrow> string \<Rightarrow> jsdate \<times> jsdate" where
  "getStartEndDate e month =
     (let monthIndex = monthMap month;
          startDate = newDate e (ToNumber monthIndex) 1;
          endDate = newDate e (plus_one monthIndex) 0
      in (startDate, endDate))"

text \<open>
  The calendar, to state what the dates mean: the length of a month, the local day on
  which a time value lies, and whether that day belongs to month \<open>m\<close> of the year of the
  clock.
\<close>

definition days_in_month :: "int \<Rightarrow> int \<Rightarrow> int" where
  "days_in_month y m =
     (if m = 1 then (if DaysInYear y = 366 then 29 else 28)
      else if m = 3 \<or> m = 5 \<or> m = 8 \<or> m = 10 then 30 else 31)"

definition local_day :: "env \<Rightarrow> int \<Rightarrow> int" where
  "local_day e t = (t + tz e) div msPerDay"

definition in_month :: "env \<Rightarrow> int \<Rightarrow> int \<Rightarrow> bool" where
  "in_month e m t =
     (MakeDay (year e) m 1 \<le> local_day e t \<and>
      local_day e t \<le> MakeDay (year e) m (days_in_month (year e) m))"

section \<open>Numbers read from text\<close>

text \<open>
  A number of the runtime, as far as the handlers meet one: a price is a finite number,
  \<^verbatim>\<open>parseFloat\<close> can also yield NaN or an infinity. A finite number is a double, given
  by the rational that it denotes.
\<close>

datatype jsnumber = NaN | Finite rat | Infinity | NegInfinity

definition negate :: "jsnumber \<Rightarrow> jsnumber" where
  "negate v =
     (case v of NaN \<Rightarrow> NaN | Finite r \<Rightarrow> Finite (- r)
      | Infinity \<Rightarrow> NegInfinity | NegInfinity \<Rightarrow> Infinity)"

definition digit_value :: "char \<Rightarrow> nat option" where
  "digit_value c = map_of (zip ''0123456789'' [0, 1, 2, 3, 4, 5, 6, 7, 8, 9]) c"

definition is_digit :: "char \<Rightarrow> bool" where
  "is_digit c = (digit_value c \<noteq> None)"

definition is_space :: "char \<Rightarrow> bool" where
  "is_space c = (c \<in> set [CHR 0x09, CHR 0x0A, CHR 0x0B, CHR 0x0C, CHR 0x0D, CHR '' ''])"

definition decimal :: "string \<Rightarrow> nat" where
  "decimal ds = foldl (\<lambda>n c. 10 * n + (case digit_value c of Some d \<Rightarrow> d | None \<Rightarrow> 0)) 0 ds"

text \<open>
  The exponent part is \<^verbatim>\<open>e\<close> or \<^verbatim>\<open>E\<close>, an optional sign and at least one digit; where
  it is absent or incomplete the literal ends before it, which is an exponent of 0.
\<close>

definition exponent_part :: "string \<Rightarrow> int" where
  "exponent_part r =
     (case r of
        [] \<Rightarrow> 0
      | c # r' \<Rightarrow>
          if c = CHR ''e'' \<or> c = CHR ''E'' then
            (case r' of
               [] \<Rightarrow> 0
             | d # r'' \<Rightarrow>
                 if d = CHR ''+'' then int (decimal (takeWhile is_digit r''))
                 else if d = CHR ''-'' then - int (decimal (takeWhile is_digit r''))
                 else int (decimal (takeWhile is_digit r')))
          else 0)"

text \<open>
  The double nearest to the fraction \<open>n / d\<close>: with \<open>e\<close> the binary exponent of the
  fraction, the doubles around it are the multiples of 2 to the power \<open>e - 52\<close>, or of
  2 to the power -1074 for the smallest; the fraction is rounded to the nearest multiple,
  a tie to the even one, and what reaches 2 to the power 1024 is infinite.
\<close>

fun bit_length :: "nat \<Rightarrow> nat" where
  "bit_length n = (if n = 0 then 0 else Suc (bit_length (n div 2)))"

declare bit_length.simps [simp del]

definition floor_log2 :: "nat \<Rightarrow> nat \<Rightarrow> int" where
  "floor_log2 n d =
     (let e = int (bit_length n) - int (bit_length d)
      in if (if 0 \<le> e then d * 2 ^ nat e \<le> n else d \<le> n * 2 ^ nat (- e)) then e else e - 1)"

definition round_half_even :: "nat \<Rightarrow> nat \<Rightarrow> nat" where
  "round_half_even n d =
     (let q = n div d; r = n mod d
      in if 2 * r < d then q else if d < 2 * r then q + 1 else if even q then q else q + 1)"

definition pow2 :: "int \<Rightarrow> rat" where
  "pow2 k = (if 0 \<le> k then 2 ^ nat k else 1 / 2 ^ nat (- k))"

definition to_double :: "nat \<Rightarrow> nat \<Rightarrow> jsnumber" where
  "to_double n d =
     (if n = 0 then Finite 0
      else
        let e = floor_log2 n d;
            k = max (e - 52) (- 1074);
            m = (if 0 \<le> k then round_half_even n (d * 2 ^ nat k)
                 else round_half_even (n * 2 ^ nat (- k)) d);
            v = of_int (int m) * pow2 k
        in if 2 ^ 1024 \<le> v then Infinity else Finite v)"

text \<open>
  An unsigned literal is \<^verbatim>\<open>Infinity\<close>, or digits with an optional fraction and exponent
  part, or a fraction that begins with the point. Its value is the number that its digits
  spell, times the power of ten of the exponent less the length of the fraction.
\<close>

definition unsigned_literal :: "string \<Rightarrow> jsnumber" where
  "unsigned_literal u =
     (if prefix ''Infinity'' u then Infinity
      else
        let ip = takeWhile is_digit u;
            r1 = dropWhile is_digit u;
            fp = (case r1 of [] \<Rightarrow> [] | c # r \<Rightarrow> if c = CHR ''.'' then takeWhile is_digit r else []);
            r2 = (case r1 of [] \<Rightarrow> [] | c # r \<Rightarrow> if c = CHR ''.'' then dropWhile is_digit r else r1)
        in if ip = [] \<and> fp = [] then NaN
           else
             let m = decimal (ip @ fp);
                 x = exponent_part r2 - int (length fp)
             in if 0 \<le> x then to_double (m * 10 ^ nat x) 1 else to_double m (10 ^ nat (- x)))"

text \<open>
  \<^verbatim>\<open>parseFloat\<close>: leading white space is skipped, then the longest prefix that is a
  decimal literal is read and rounded to a double; NaN when there is none.
\<close>

definition parseFloat :: "string \<Rightarrow> jsnumber" where
  "parseFloat s =
     (case dropWhile is_space s of
        [] \<Rightarrow> NaN
      | c # u \<Rightarrow>
          if c = CHR ''+'' then unsigned_literal u
          else if c = CHR ''-'' then negate (unsigned_literal u)
          else unsigned_literal (c # u))"

section \<open>Regular expressions\<close>

text \<open>
  \<^verbatim>\<open>new RegExp(search, 'i')\<close> reads the search text as a pattern. The patterns covered here
  are those made of literal characters and the dot; for a text that uses any other
  syntax character \<open>RegExp\<close> is \<open>None\<close> and nothing is said about the handler.
  A literal matches its character in either case, the dot every character but a line
  terminator, and \<open>test\<close> looks for a match at any position of the text.
\<close>

datatype atom = Lit char | Dot

type_synonym regexp = "atom list"

definition syntax_character :: "char \<Rightarrow> bool" where
  "syntax_character c = (c \<in> set (CHR 0x5C # ''^$.*+?()[]{}|''))"

fun RegExp :: "string \<Rightarrow> regexp option" where
  "RegExp [] = Some []"
| "RegExp (c # cs) =
     (if c = CHR ''.'' then map_option (Cons Dot) (RegExp cs)
      else if syntax_character c then None
      else map_option (Cons (Lit c)) (RegExp cs))"

fun atom_matches :: "atom \<Rightarrow> char \<Rightarrow> bool" where
  "atom_matches (Lit a) c = (lower_char a = lower_char c)"
| "atom_matches Dot c = (c \<noteq> CHR 0x0A \<and> c \<noteq> CHR 0x0D)"

fun match_here :: "regexp \<Rightarrow> string \<Rightarrow> bool" where
  "match_here [] s = True"
| "match_here (a # as) [] = False"
| "match_here (a # as) (c # cs) = (atom_matches a c \<and> match_here as cs)"

fun test :: "regexp \<Rightarrow> string \<Rightarrow> bool" where
  "test r [] = match_here r []"
| "test r (c # cs) = (match_here r (c # cs) \<or> test r cs)"

text \<open>
  What the specification calls a case-insensitive substring match: the lowercased search
  text occurs as a contiguous part of the lowercased field.
\<close>

definition contains_ignoring_case :: "string \<Rightarrow> string \<Rightarrow> bool" where
  "contains_ignoring_case search field = sublist (toLowerCase search) (toLowerCase field)"

section \<open>The collection\<close>

text \<open>
  The schema of the collection names five fields and requires none, so a stored document
  may lack any of them: \<open>None\<close> is an absent field.
\<close>

record Transaction =
  title :: "string option"
  description :: "string option"
  price :: "rat option"
  dateOfSale :: "int option"
  category :: "string option"

text \<open>The conditions that the handlers put on a field, and the two shapes of their filters.\<close>

datatype cond =
    TitleRegExp regexp
  | DescriptionRegExp regexp
  | PriceEq jsnumber
  | PriceExists
  | DateOfSaleRange jsdate jsdate
  | DateOfSaleLt jsdate

datatype query = Cond cond | Or "cond list"

text \<open>
  A date travels to the store as its time value; the driver writes an Invalid Date as
  time value 0. A condition on a field holds for no document that lacks the field.
\<close>

definition encode :: "jsdate \<Rightarrow> int" where
  "encode d = (case d of None \<Rightarrow> 0 | Some t \<Rightarrow> t)"

fun cond_matches :: "cond \<Rightarrow> Transaction \<Rightarrow> bool" where
  "cond_matches (TitleRegExp r) d = (case title d of None \<Rightarrow> False | Some t \<Rightarrow> test r t)"
| "cond_matches (DescriptionRegExp r) d =
     (case description d of None \<Rightarrow> False | Some t \<Rightarrow> test r t)"
| "cond_matches (PriceEq v) d = (case price d of None \<Rightarrow> False | Some p \<Rightarrow> v = Finite p)"
| "cond_matches PriceExists d = (price d \<noteq> None)"
| "cond_matches (DateOfSaleRange a b) d =
     (case dateOfSale d of None \<Rightarrow> False | Some t \<Rightarrow> encode a \<le> t \<and> t \<le> encode b)"
| "cond_matches (DateOfSaleLt a) d =
     (case dateOfSale d of None \<Rightarrow> False | Some t \<Rightarrow> t < encode a)"

fun matches :: "query \<Rightarrow> Transaction \<Rightarrow> bool" where
  "matches (Cond c) d = cond_matches c d"
| "matches (Or cs) d = list_ex (\<lambda>c. cond_matches c d) cs"

text \<open>
  Mongoose casts the filter of \<^verbatim>\<open>find\<close> and \<^verbatim>\<open>countDocuments\<close> to the schema before it
  sends it: a price that is NaN and a date that is invalid do not pass, and the call is
  rejected without a query.
\<close>

fun cond_cast_ok :: "cond \<Rightarrow> bool" where
  "cond_cast_ok (PriceEq v) = (v \<noteq> NaN)"
| "cond_cast_ok (DateOfSaleRange a b) = (a \<noteq> None \<and> b \<noteq> None)"
| "cond_cast_ok (DateOfSaleLt a) = (a \<noteq> None)"
| "cond_cast_ok c = True"

fun cast_ok :: "query \<Rightarrow> bool" where
  "cast_ok (Cond c) = cond_cast_ok c"
| "cast_ok (Or cs) = list_all cond_cast_ok cs"

text \<open>
  The store as a handler sees it: the documents, for each coming query whether it will
  fail (\<open>True\<close> is a failure, and beyond the end of the list every query is answered),
  and the number of queries received so far.
\<close>

datatype error = CastError | StoreError

record store =
  docs :: "Transaction list"
  faults :: "bool list"
  queries :: nat

type_synonym 'a io = "store \<Rightarrow> (error + 'a) \<times> store"

definition head_fault :: "store \<Rightarrow> bool" where
  "head_fault s = (case faults s of [] \<Rightarrow> False | f # fs \<Rightarrow> f)"

definition advance :: "store \<Rightarrow> store" where
  "advance s = s\<lparr>faults := tl (faults s), queries := Suc (queries s)\<rparr>"

definition answer :: "(Transaction list \<Rightarrow> 'a) \<Rightarrow> 'a io" where
  "answer k s = (if head_fault s then Inl StoreError else Inr (k (docs s)), advance s)"

definition answers :: "nat \<Rightarrow> store \<Rightarrow> bool" where
  "answers n s = (True \<notin> set (take n (faults s)))"

text \<open>An awaited call: a rejection leaves the rest of the body unexecuted.\<close>

definition await :: "'a io \<Rightarrow> ('a \<Rightarrow> 'b io) \<Rightarrow> 'b io" where
  "await m f s = (case m s of (Inl err, s') \<Rightarrow> (Inl err, s') | (Inr v, s') \<Rightarrow> f v s')"

definition return_io :: "'a \<Rightarrow> 'a io" where
  "return_io v s = (Inr v, s)"

subsection \<open>The calls on the model\<close>

definition countDocuments :: "query \<Rightarrow> nat io" where
  "countDocuments q s =
     (if \<not> cast_ok q then (Inl CastError, s)
      else answer (\<lambda>ds. length (filter (matches q) ds)) s)"

definition find :: "query \<Rightarrow> Transaction list io" where
  "find q s =
     (if \<not> cast_ok q then (Inl CastError, s)
      else answer (\<lambda>ds. filter (matches q) ds) s)"

text \<open>
  \<^verbatim>\<open>find(q).skip(n).limit(k)\<close>. MongoDB refuses a negative skip; to it a limit of 0 is
  no limit, and a negative limit counts as its absolute value.
\<close>

definition limit_docs :: "int \<Rightarrow> 'a list \<Rightarrow> 'a list" where
  "limit_docs k xs = (if k = 0 then xs else take (nat \<bar>k\<bar>) xs)"

definition find_skip_limit :: "query \<Rightarrow> int \<Rightarrow> int \<Rightarrow> Transaction list io" where
  "find_skip_limit q n k s =
     (if \<not> cast_ok q then (Inl CastError, s)
      else if n < 0 then (Inl StoreError, advance s)
      else answer (\<lambda>ds. limit_docs k (drop (nat n) (filter (matches q) ds))) s)"

text \<open>
  The two pipelines. A pipeline is sent as it is written, without a cast. The first
  groups all selected documents under \<^verbatim>\<open>_id: null\<close> and sums their prices: no group when
  nothing is selected, and a document without a price adds nothing. The second groups
  by category and counts; the groups are listed in the order in which their categories
  first occur, where the store itself promises no order.
\<close>

definition price_or_0 :: "Transaction \<Rightarrow> rat" where
  "price_or_0 d = (case price d of None \<Rightarrow> 0 | Some p \<Rightarrow> p)"

definition aggregate_total :: "query \<Rightarrow> rat list io" where
  "aggregate_total q =
     answer (\<lambda>ds. let ms = filter (matches q) ds
                  in if ms = [] then [] else [sum_list (map price_or_0 ms)])"

fun add_to_group :: "'k \<Rightarrow> ('k \<times> nat) list \<Rightarrow> ('k \<times> nat) list" where
  "add_to_group k [] = [(k, 1)]"
| "add_to_group k ((k', n) # gs) =
     (if k = k' then (k', n + 1) # gs else (k', n) # add_to_group k gs)"

definition aggregate_by_category :: "query \<Rightarrow> (string option \<times> nat) list io" where
  "aggregate_by_category q =
     answer (\<lambda>ds. foldl (\<lambda>gs d. add_to_group (category d) gs) [] (filter (matches q) ds))"

section \<open>The routes\<close>

text \<open>
  A response is the JSON body with status 200, the message with status 400, or the
  message and the error with status 500. A route takes the request parameter and the
  store and gives the response and the store after it.
\<close>

datatype 'a response = Status200 'a | Status400 string | Status500 string error

text \<open>\<^verbatim>\<open>try { ... res.json(v) } catch (error) { ... res.status(500) ... }\<close>\<close>

definition try_catch :: "'a io \<Rightarrow> string \<Rightarrow> store \<Rightarrow> 'a response \<times> store" where
  "try_catch body message s =
     (case body s of
        (Inr v, s') \<Rightarrow> (Status200 v, s')
      | (Inl err, s') \<Rightarrow> (Status500 message err, s'))"

subsection \<open>Statistics\<close>

record statisticsData =
  totalSales :: rat
  soldItems :: nat
  notSoldItems :: nat

text \<open>\<^verbatim>\<open>totalSales[0]?.total || 0\<close>\<close>

definition first_total_or_0 :: "rat list \<Rightarrow> rat" where
  "first_total_or_0 ts = (case ts of [] \<Rightarrow> 0 | t # _ \<Rightarrow> if t = 0 then 0 else t)"

definition statistics_route :: "env \<Rightarrow> string \<Rightarrow> store \<Rightarrow> statisticsData response \<times> store" where
  "statistics_route e param s =
     (let month = toLowerCase param in
      if \<not> truthy (monthMap month) then (Status400 ''Invalid month'', s)
      else
        let (startDate, endDate) = getStartEndDate e month in
        try_catch
          (await (countDocuments (Cond (DateOfSaleRange startDate endDate))) (\<lambda>sold.
           await (aggregate_total (Cond (DateOfSaleRange startDate endDate))) (\<lambda>totals.
           await (countDocuments (Cond (DateOfSaleLt startDate))) (\<lambda>notSold.
           return_io \<lparr>totalSales = first_total_or_0 totals, soldItems = sold,
                      notSoldItems = notSold\<rparr>))))
          ''Failed to retrieve statistics'' s)"

definition getStatistics :: "env \<Rightarrow> string \<Rightarrow> statisticsData io" where
  "getStatistics e month =
     (let (startDate, endDate) = getStartEndDate e month in
      await (countDocuments (Cond (DateOfSaleRange startDate endDate))) (\<lambda>sold.
      await (aggregate_total (Cond (DateOfSaleRange startDate endDate))) (\<lambda>totals.
      await (countDocuments (Cond (DateOfSaleLt startDate))) (\<lambda>notSold.
      return_io \<lparr>totalSales = first_total_or_0 totals, soldItems = sold,
                 notSoldItems = notSold\<rparr>))))"

subsection \<open>Bar chart\<close>

text \<open>A price range is its label and its count.\<close>

type_synonym priceRange = "string \<times> nat"

definition priceRanges :: "priceRange list" where
  "priceRanges =
     [(''0-100'', 0), (''101-200'', 0), (''201-300'', 0), (''301-400'', 0),
      (''401-500'', 0), (''501-600'', 0), (''601-700'', 0), (''701-800'', 0),
      (''801-900'', 0), (''901-above'', 0)]"

text \<open>\<^verbatim>\<open>priceRanges[i].count++\<close>; the index is always one of the ten.\<close>

definition increment :: "nat \<Rightarrow> priceRange list \<Rightarrow> priceRange list" where
  "increment i rs = rs[i := (fst (rs ! i), snd (rs ! i) + 1)]"

text \<open>A comparison with the price of a document that has none is false.\<close>

definition price_le :: "rat option \<Rightarrow> rat \<Rightarrow> bool" where
  "price_le p b = (case p of None \<Rightarrow> False | Some x \<Rightarrow> x \<le> b)"

text \<open>The body of the \<^verbatim>\<open>forEach\<close>.\<close>

definition tally :: "priceRange list \<Rightarrow> Transaction \<Rightarrow> priceRange list" where
  "tally rs transaction =
     (let p = price transaction in
      if price_le p 100 then increment 0 rs
      else if price_le p 200 then increment 1 rs
      else if price_le p 300 then increment 2 rs
      else if price_le p 400 then increment 3 rs
      else if price_le p 500 then increment 4 rs
      else if price_le p 600 then increment 5 rs
      else if price_le p 700 then increment 6 rs
      else if price_le p 800 then increment 7 rs
      else if price_le p 900 then increment 8 rs
      else increment 9 rs)"

definition barChart_route :: "env \<Rightarrow> string \<Rightarrow> store \<Rightarrow> priceRange list response \<times> store" where
  "barChart_route e param s =
     (let month = toLowerCase param in
      if \<not> truthy (monthMap month) then (Status400 ''Invalid month'', s)
      else
        let (startDate, endDate) = getStartEndDate e month in
        try_catch
          (await (find (Cond (DateOfSaleRange startDate endDate))) (\<lambda>transactions.
           return_io (foldl tally priceRanges transactions)))
          ''Failed to retrieve bar chart data'' s)"

definition getBarChart :: "env \<Rightarrow> string \<Rightarrow> priceRange list io" where
  "getBarChart e month =
     (let (startDate, endDate) = getStartEndDate e month in
      await (find (Cond (DateOfSaleRange startDate endDate))) (\<lambda>transactions.
      return_io (foldl tally priceRanges transactions)))"

subsection \<open>Pie chart\<close>

definition pieChart_route ::
  "env \<Rightarrow> string \<Rightarrow> store \<Rightarrow> (string option \<times> nat) list response \<times> store" where
  "pieChart_route e param s =
     (let month = toLowerCase param in
      if \<not> truthy (monthMap month) then (Status400 ''Invalid month'', s)
      else
        let (startDate, endDate) = getStartEndDate e month in
        try_catch
          (await (aggregate_by_category (Cond (DateOfSaleRange startDate endDate))) (\<lambda>categories.
           return_io categories))
          ''Failed to retrieve pie chart data'' s)"

definition getPieChart :: "env \<Rightarrow> string \<Rightarrow> (string option \<times> nat) list io" where
  "getPieChart e month =
     (let (startDate, endDate) = getStartEndDate e month in
      aggregate_by_category (Cond (DateOfSaleRange startDate endDate)))"

subsection \<open>Combined\<close>

record combinedData =
  statistics :: statisticsData
  barChart :: "priceRange list"
  pieChart :: "(string option \<times> nat) list"

definition combined_route :: "env \<Rightarrow> string \<Rightarrow> store \<Rightarrow> combinedData response \<times> store" where
  "combined_route e param s =
     (let month = toLowerCase param in
      if \<not> truthy (monthMap month) then (Status400 ''Invalid month'', s)
      else
        try_catch
          (await (getStatistics e month) (\<lambda>st.
           await (getBarChart e month) (\<lambda>bc.
           await (getPieChart e month) (\<lambda>pc.
           return_io \<lparr>statistics = st, barChart = bc, pieChart = pc\<rparr>))))
          ''Failed to retrieve combined data'' s)"

subsection \<open>Transactions\<close>

text \<open>
  The parameters \<^verbatim>\<open>page\<close> and \<^verbatim>\<open>perPage\<close> are the integers that the query string denotes,
  \<open>None\<close> when the request has none; the filter is the disjunction that the handler
  writes, with the search text compiled twice to the same pattern.
\<close>

record listing =
  transactions :: "Transaction list"
  total :: nat

definition or_default :: "'a \<Rightarrow> 'a option \<Rightarrow> 'a" where
  "or_default d x = (case x of None \<Rightarrow> d | Some v \<Rightarrow> v)"

definition transactions_query :: "string \<Rightarrow> query option" where
  "transactions_query search =
     (case RegExp search of
        None \<Rightarrow> None
      | Some re \<Rightarrow>
          Some (Or [TitleRegExp re, DescriptionRegExp re,
                    if search \<noteq> [] then PriceEq (parseFloat search) else PriceExists]))"

definition transactions_route ::
  "int option \<Rightarrow> int option \<Rightarrow> string option \<Rightarrow> store \<Rightarrow> (listing response \<times> store) option" where
  "transactions_route page_param perPage_param search_param s =
     (let page = or_default 1 page_param;
          perPage = or_default 10 perPage_param;
          search = or_default [] search_param
      in case transactions_query search of
           None \<Rightarrow> None
         | Some query \<Rightarrow>
             Some (try_catch
               (await (find_skip_limit query ((page - 1) * perPage) perPage) (\<lambda>found.
                await (countDocuments query) (\<lambda>n.
                return_io \<lparr>transactions = found, total = n\<rparr>)))
               ''Failed to retrieve transactions'' s))"

section \<open>Startup\<close>

text \<open>
  \<^verbatim>\<open>server.js\<close> chains two callbacks on the promise of \<^verbatim>\<open>mongoose.connect\<close>: the first
  starts the listener when the promise is fulfilled, the second logs the error when it
  is rejected.
\<close>

datatype 'a promise = Fulfilled 'a | Rejected string

record server =
  listening :: bool
  console :: "string list"

definition initial_server :: server where
  "initial_server = \<lparr>listening = False, console = []\<rparr>"

definition app_listen :: "server \<Rightarrow> server" where
  "app_listen sv = sv\<lparr>listening := True, console := console sv @ [''Server is running on port'']\<rparr>"

definition console_error :: "string \<Rightarrow> server \<Rightarrow> server" where
  "console_error msg sv = sv\<lparr>console := console sv @ [msg]\<rparr>"

definition then_do :: "'a promise \<Rightarrow> (server \<Rightarrow> server) \<Rightarrow> server \<Rightarrow> unit promise \<times> server" where
  "then_do p callback sv =
     (case p of Fulfilled v \<Rightarrow> (Fulfilled (), callback sv) | Rejected err \<Rightarrow> (Rejected err, sv))"

definition catch_do :: "unit promise \<times> server \<Rightarrow> (string \<Rightarrow> server \<Rightarrow> server) \<Rightarrow> server" where
  "catch_do r callback =
     (case r of (Fulfilled v, sv) \<Rightarrow> sv | (Rejected err, sv) \<Rightarrow> callback err sv)"

definition startup :: "unit promise \<Rightarrow> server" where
  "startup outcome =
     catch_do (then_do outcome app_listen initial_server)
       (\<lambda>err. console_error (''Database connection error: '' @ err))"

section \<open>Notions for stating the properties\<close>

text \<open>A valid month name is one of the twelve English names, in lower case.\<close>

definition valid_month :: "string \<Rightarrow> bool" where
  "valid_month m = (m \<in> set (map fst monthTable))"

text \<open>
  The runtime keeps a year within the range of its dates and a zone offset within a day.
\<close>

definition clock_ok :: "env \<Rightarrow> bool" where
  "clock_ok e = (100 \<le> year e \<and> year e \<le> 270000 \<and> \<bar>tz e\<bar> \<le> msPerDay)"

text \<open>The bucket of a price: the first whose upper bound is not below it.\<close>

definition bucket_index :: "rat option \<Rightarrow> nat" where
  "bucket_index p =
     (if price_le p 100 then 0 else if price_le p 200 then 1 else if price_le p 300 then 2
      else if price_le p 400 then 3 else if price_le p 500 then 4 else if price_le p 600 then 5
      else if price_le p 700 then 6 else if price_le p 800 then 7 else if price_le p 900 then 8
      else 9)"

text \<open>The number of records that a response accounts for; \<open>None\<close> when it carries no data.\<close>

definition population :: "('a \<Rightarrow> nat) \<Rightarrow> 'a response \<Rightarrow> nat option" where
  "population size_of r = (case r of Status200 v \<Rightarrow> Some (size_of v) | Status400 m \<Rightarrow> None
                           | Status500 m err \<Rightarrow> None)"

definition counted :: "('k \<times> nat) list \<Rightarrow> nat" where
  "counted groups = sum_list (map snd groups)"

text \<open>
  The filter that the monthly routes write, \<^verbatim>\<open>{ dateOfSale: { $gte: startDate, $lte: endDate } }\<close>,
  and the filter \<^verbatim>\<open>{ dateOfSale: { $lt: startDate } }\<close>, for the dates of a month.
\<close>

definition month_filter :: "env \<Rightarrow> string \<Rightarrow> query" where
  "month_filter e month =
     (let (startDate, endDate) = getStartEndDate e month in Cond (DateOfSaleRange startDate endDate))"

definition before_filter :: "env \<Rightarrow> string \<Rightarrow> query" where
  "before_filter e month =
     (let (startDate, endDate) = getStartEndDate e month in Cond (DateOfSaleLt startDate))"

definition in_range :: "env \<Rightarrow> string \<Rightarrow> Transaction list \<Rightarrow> Transaction list" where
  "in_range e month ds = filter (matches (month_filter e month)) ds"

definition before_range :: "env \<Rightarrow> string \<Rightarrow> Transaction list \<Rightarrow> Transaction list" where
  "before_range e month ds = filter (matches (before_filter e month)) ds"

text \<open>
  The combined report in the words of the specification: the results of the three
  operations for the same month, one after the other on the same documents; the failure
  of one of them is the failure of the whole, reported under the message of the combined
  route.
\<close>

definition combined_spec :: "env \<Rightarrow> string \<Rightarrow> store \<Rightarrow> combinedData response \<times> store" where
  "combined_spec e param s =
     (case statistics_route e param s of
        (Status400 msg, s1) \<Rightarrow> (Status400 msg, s1)
      | (Status500 msg err, s1) \<Rightarrow> (Status500 ''Failed to retrieve combined data'' err, s1)
      | (Status200 st, s1) \<Rightarrow>
          (case barChart_route e param s1 of
             (Status400 msg, s2) \<Rightarrow> (Status400 msg, s2)
           | (Status500 msg err, s2) \<Rightarrow> (Status500 ''Failed to retrieve combined data'' err, s2)
           | (Status200 bc, s2) \<Rightarrow>
               (case pieChart_route e param s2 of
                  (Status400 msg, s3) \<Rightarrow> (Status400 msg, s3)
                | (Status500 msg err, s3) \<Rightarrow>
                    (Status500 ''Failed to retrieve combined data'' err, s3)
                | (Status200 pc, s3) \<Rightarrow>
                    (Status200 \<lparr>statistics = st, barChart = bc, pieChart = pc\<rparr>, s3))))"

text \<open>
  The search predicate in the words of the specification: the title contains the search
  text, case ignored, or the description does, or the price is the number that
  \<^verbatim>\<open>parseFloat\<close> reads from the text; for the empty text the last alternative is that the
  record has a price.
\<close>

definition search_spec :: "string \<Rightarrow> Transaction \<Rightarrow> bool" where
  "search_spec search d =
     ((case title d of None \<Rightarrow> False | Some t \<Rightarrow> contains_ignoring_case search t) \<or>
      (case description d of None \<Rightarrow> False | Some t \<Rightarrow> contains_ignoring_case search t) \<or>
      (if search \<noteq> [] then (case price d of None \<Rightarrow> False | Some p \<Rightarrow> parseFloat search = Finite p)
       else price d \<noteq> None))"

section \<open>Sample data\<close>

text \<open>
  A clock in 2022 with local time UTC, for which March runs from time value 1646092800000
  to the end date 1648684800000, and a small collection: three sales in March, one of them
  a refund with a negative price, and one sale in February.
\<close>

definition utc_2022 :: env where
  "utc_2022 = \<lparr>year = 2022, tz = 0\<rparr>"

definition refund :: Transaction where
  "refund = \<lparr>title = Some ''Refund'', description = Some ''Returned lamp'', price = Some (- 40),
             dateOfSale = Some 1646500000000, category = Some ''home''\<rparr>"

definition lamp :: Transaction where
  "lamp = \<lparr>title = Some ''Lamp'', description = Some ''Desk lamp, 150 lumen'', price = Some 100,
           dateOfSale = Some 1646600000000, category = Some ''home''\<rparr>"

definition desk :: Transaction where
  "desk = \<lparr>title = Some ''Desk'', description = Some ''Oak desk'', price = Some 101,
           dateOfSale = Some 1646700000000, category = Some ''office''\<rparr>"

definition chair :: Transaction where
  "chair = \<lparr>title = Some ''Chair'', description = Some ''Office chair'', price = Some 150,
            dateOfSale = Some 1645000000000, category = Some ''office''\<rparr>"

definition shop :: store where
  "shop = \<lparr>docs = [refund, lamp, desk, chair], faults = [], queries = 0\<rparr>"

text \<open>A document with a date and a category and none of the three searched fields.\<close>

definition bare :: Transaction where
  "bare = \<lparr>title = None, description = None, price = None,
           dateOfSale = Some 1646800000000, category = Some ''misc''\<rparr>"

text \<open>A shelf whose title holds the digits 1, 2 and 5.\<close>

definition shelf :: Transaction where
  "shelf = \<lparr>title = Some ''125 cm shelf'', description = Some ''Pine'', price = Some 30,
            dateOfSale = Some 1646900000000, category = Some ''home''\<rparr>"

definition attic :: store where
  "attic = \<lparr>docs = [bare], faults = [], queries = 0\<rparr>"

definition showroom :: store where
  "showroom = \<lparr>docs = [shelf], faults = [], queries = 0\<rparr>"

section \<open>Dates: properties\<close>

lemma div_step:
  assumes "0 < k"
  shows "((x::int) + 1) div k = x div k + (if (x + 1) mod k = 0 then 1 else 0)"
proof -
  define q where "q = x div k"
  define r where "r = x mod k"
  have x: "x = k * q + r" by (simp add: q_def r_def)
  have b: "0 \<le> r" "r < k" using assms by (simp_all add: r_def)
  show ?thesis
  proof (cases "r + 1 = k")
    case True
    have e: "x + 1 = k * (q + 1) + 0" using True x by (simp add: algebra_simps)
    have "(x + 1) div k = q + 1" by (rule int_div_pos_eq [OF e]) (use assms in simp_all)
    moreover have "(x + 1) mod k = 0" by (rule int_mod_pos_eq [OF e]) (use assms in simp_all)
    ultimately show ?thesis by (simp add: q_def)
  next
    case False
    with b have lt: "r + 1 < k" by linarith
    have e: "x + 1 = k * q + (r + 1)" using x by simp
    have "(x + 1) div k = q" by (rule int_div_pos_eq [OF e]) (use b lt in simp_all)
    moreover have "(x + 1) mod k = r + 1" by (rule int_mod_pos_eq [OF e]) (use b lt in simp_all)
    ultimately show ?thesis using b by (simp add: q_def)
  qed
qed

lemma mod_shift: "((y::int) - k * c) mod k = y mod k"
proof -
  have "y - k * c = y + k * (- c)" by simp
  then show ?thesis by (simp only: mod_mult_self2)
qed

text \<open>The day number of the first of January advances by the length of the year.\<close>

lemma DayFromYear_Suc: "DayFromYear (y + 1) = DayFromYear y + DaysInYear y"
proof -
  have a: "(y - 1968) div 4 = (y - 1969) div 4 + (if y mod 4 = 0 then 1 else 0)"
    using div_step [of 4 "y - 1969"] mod_shift [of y 4 492] by simp
  have b: "(y - 1900) div 100 = (y - 1901) div 100 + (if y mod 100 = 0 then 1 else 0)"
    using div_step [of 100 "y - 1901"] mod_shift [of y 100 19] by simp
  have c: "(y - 1600) div 400 = (y - 1601) div 400 + (if y mod 400 = 0 then 1 else 0)"
    using div_step [of 400 "y - 1601"] mod_shift [of y 400 4] by simp
  have h: "(100::int) dvd 400" "(4::int) dvd 100" by simp_all
  have d: "y mod 400 = 0 \<Longrightarrow> y mod 100 = 0" "y mod 100 = 0 \<Longrightarrow> y mod 4 = 0"
    unfolding mod_eq_0_iff_dvd by (erule dvd_trans [OF h(1)], erule dvd_trans [OF h(2)])
  have e: "DayFromYear (y + 1) =
    365 * (y - 1969) + (y - 1968) div 4 - (y - 1900) div 100 + (y - 1600) div 400"
    by (simp add: DayFromYear_def)
  show ?thesis
    unfolding e a b c unfolding DayFromYear_def DaysInYear_def
    using d by (cases "y mod 4 = 0"; cases "y mod 100 = 0"; cases "y mod 400 = 0") simp_all
qed

lemma DaysInYear_cases: "DaysInYear y = 365 \<or> DaysInYear y = 366"
  by (simp add: DaysInYear_def)

lemma month_start_next:
  assumes "0 \<le> m" "m \<le> 10"
  shows "month_start y (m + 1) = month_start y m + days_in_month y m"
proof -
  from assms have "m = 0 \<or> m = 1 \<or> m = 2 \<or> m = 3 \<or> m = 4 \<or> m = 5 \<or> m = 6
    \<or> m = 7 \<or> m = 8 \<or> m = 9 \<or> m = 10" by presburger
  then show ?thesis
    by (elim disjE) (simp_all add: month_start_def days_in_month_def)
qed

text \<open>Day 0 of the following month is the last day of the month, in December too.\<close>

lemma MakeDay_last_day:
  assumes "0 \<le> m" "m \<le> 11"
  shows "MakeDay y (m + 1) 0 = MakeDay y m (days_in_month y m)"
proof (cases "m = 11")
  case True
  have "MakeDay y 12 0 = DayFromYear (y + 1) - 1"
    by (simp add: MakeDay_def month_start_def)
  moreover have "MakeDay y 11 (days_in_month y 11) = DayFromYear y + DaysInYear y - 1"
    using DaysInYear_cases [of y] by (auto simp add: MakeDay_def month_start_def days_in_month_def)
  ultimately show ?thesis using True by (simp add: DayFromYear_Suc)
next
  case False
  with assms have m: "0 \<le> m" "m \<le> 10" by auto
  then have "(m + 1) div 12 = 0" "(m + 1) mod 12 = m + 1" "m div 12 = 0" "m mod 12 = m" by auto
  then show ?thesis
    using month_start_next [OF m, of y] by (simp add: MakeDay_def)
qed


lemma DayFromYear_bounds:
  assumes "100 \<le> y" "y \<le> 270001"
  shows "- 700000 \<le> DayFromYear y \<and> DayFromYear y \<le> 97900000"
proof -
  define a where "a = (y - 1969) div 4"
  define b where "b = (y - 1901) div 100"
  define c where "c = (y - 1601) div 400"
  have a: "a \<le> 67008" "- 468 \<le> a"
    using assms unfolding a_def by linarith+
  have b: "b \<le> 2681" "- 19 \<le> b"
    using assms unfolding b_def by linarith+
  have c: "c \<le> 671" "- 4 \<le> c"
    using assms unfolding c_def by linarith+
  have d: "DayFromYear y = 365 * (y - 1970) + a - b + c"
    by (simp add: DayFromYear_def a_def b_def c_def)
  have "- 700000 \<le> 365 * (y - 1970) + a - b + c"
    using assms(1) a(2) b(1) c(2) by simp
  moreover have "365 * (y - 1970) + a - b + c \<le> 97900000"
    using assms(2) a(1) b(2) c(1) by simp
  ultimately show ?thesis
    unfolding d by simp
qed

lemma month_start_bounds: "0 \<le> month_start y m \<and> month_start y m \<le> 335"
  by (simp add: month_start_def Let_def)

lemma MakeDay_bounds:
  assumes "100 \<le> y" "y \<le> 270000" "0 \<le> m" "m \<le> 12" "0 \<le> d" "d \<le> 1"
  shows "\<bar>MakeDay y m d\<bar> \<le> 97910000"
proof -
  define D where "D = DayFromYear (y + m div 12)"
  define M where "M = month_start (y + m div 12) (m mod 12)"
  have "m div 12 = 0 \<or> m div 12 = 1" using assms by presburger
  then have y': "100 \<le> y + m div 12" "y + m div 12 \<le> 270001"
    using assms by auto
  have D: "- 700000 \<le> D" "D \<le> 97900000"
    using DayFromYear_bounds [OF y'] by (simp_all add: D_def)
  have M: "0 \<le> M" "M \<le> 335"
    using month_start_bounds [of "y + m div 12" "m mod 12"] by (simp_all add: M_def)
  have "- 97910000 \<le> D + M + d - 1" "D + M + d - 1 \<le> 97910000"
    using D M assms(5,6) by simp_all
  then have "\<bar>D + M + d - 1\<bar> \<le> 97910000"
    by (simp add: abs_le_iff)
  then show ?thesis
    by (simp add: MakeDay_def Let_def D_def M_def)
qed

lemma TimeClip_MakeDay:
  assumes "clock_ok e" "0 \<le> m" "m \<le> 12" "0 \<le> d" "d \<le> 1"
  shows "newDate e (Some m) d = Some (MakeDay (year e) m d * msPerDay - tz e)"
proof -
  have y: "100 \<le> year e" "year e \<le> 270000" and z: "\<bar>tz e\<bar> \<le> 86400000"
    using assms(1) by (simp_all add: clock_ok_def msPerDay_def)
  have "\<bar>MakeDay (year e) m d\<bar> \<le> 97910000"
    using y assms by (intro MakeDay_bounds)
  then have "- 8640000000000000 \<le> MakeDay (year e) m d * 86400000 - tz e"
    "MakeDay (year e) m d * 86400000 - tz e \<le> 8640000000000000"
    using z by (simp_all add: abs_le_iff)
  then have "\<bar>MakeDay (year e) m d * 86400000 - tz e\<bar> \<le> 8640000000000000"
    by (simp add: abs_le_iff)
  then show ?thesis
    using y by (simp add: newDate_def TimeClip_def msPerDay_def Let_def)
qed


lemma le_div_iff:
  assumes "0 < k"
  shows "(D \<le> a div k) = (D * k \<le> (a::int))"
proof -
  have "(a + (- D) * k) div k = - D + a div k"
    using assms by (subst div_mult_self1) simp_all
  then have "(0 \<le> a div k - D) = (0 \<le> a - D * k)"
    using pos_imp_zdiv_nonneg_iff [OF assms, of "a + (- D) * k"] by simp
  then show ?thesis by simp
qed

lemma valid_month_index:
  "valid_month m \<Longrightarrow> \<exists>i. monthMap m = Number i \<and> 0 \<le> i \<and> i \<le> 11"
  by (auto simp add: valid_month_def monthTable_def monthMap_def)

text \<open>
  For a month name the start date is midnight of the first day of the month and the end
  date is midnight of its last day, both in local time and in the year of the clock.
\<close>

lemma getStartEndDate_valid:
  assumes "monthMap m = Number i" "0 \<le> i" "i \<le> 11" "clock_ok e"
  shows "getStartEndDate e m =
    (Some (MakeDay (year e) i 1 * msPerDay - tz e),
     Some (MakeDay (year e) i (days_in_month (year e) i) * msPerDay - tz e))"
proof -
  have "newDate e (Some i) 1 = Some (MakeDay (year e) i 1 * msPerDay - tz e)"
    using assms by (intro TimeClip_MakeDay) simp_all
  moreover have "newDate e (Some (i + 1)) 0 = Some (MakeDay (year e) (i + 1) 0 * msPerDay - tz e)"
    using assms by (intro TimeClip_MakeDay) simp_all
  ultimately show ?thesis
    using assms(1) MakeDay_last_day [OF assms(2,3), of "year e"]
    by (simp add: getStartEndDate_def ToNumber_def plus_one_def Let_def)
qed

text \<open>
  The time values from the start date to the end date are those of the month whose local
  day is before the last day of the month, and the first instant of the last day.
\<close>

lemma interval_is_month_but_last_day:
  assumes "monthMap m = Number i" "0 \<le> i" "i \<le> 11" "clock_ok e"
    and "getStartEndDate e m = (Some a, Some b)"
  shows "(a \<le> t \<and> t \<le> b) =
    (in_month e i t \<and>
      (local_day e t < MakeDay (year e) i (days_in_month (year e) i) \<or>
       t = b))"
proof -
  define k where "k = msPerDay"
  define F where "F = MakeDay (year e) i 1"
  define L where "L = MakeDay (year e) i (days_in_month (year e) i)"
  define u where "u = t + tz e"
  have k: "0 < k" by (simp add: k_def msPerDay_def)
  have ab: "a = F * k - tz e" "b = L * k - tz e"
    using getStartEndDate_valid [OF assms(1-4)] assms(5) by (simp_all add: F_def L_def k_def)
  have 1: "(a \<le> t) = (F \<le> u div k)"
    unfolding le_div_iff [OF k] by (auto simp add: ab u_def)
  have 2: "(u div k < L) = (u < L * k)"
    using le_div_iff [OF k, of L u] by auto
  have 3: "(t \<le> b) = (u \<le> L * k)" "(t = b) = (u = L * k)"
    by (auto simp add: ab u_def)
  have 4: "u = L * k \<Longrightarrow> u div k = L"
    using k by simp
  have "(F \<le> u div k \<and> u \<le> L * k) =
        ((F \<le> u div k \<and> u div k \<le> L) \<and> (u div k < L \<or> u = L * k))"
    unfolding 2 using 4 2 by (cases "u = L * k") auto
  then show ?thesis
    unfolding 1 3 in_month_def local_day_def F_def [symmetric] L_def [symmetric]
      k_def [symmetric] u_def [symmetric] by simp
qed

section \<open>Month resolution: properties\<close>

lemma toLowerCase_january: "toLowerCase ''january'' = ''january''"
  by (simp add: toLowerCase_def lower_char_def)

lemma toLowerCase_January: "toLowerCase ''January'' = ''january''"
  by (simp add: toLowerCase_def lower_char_def)

lemma monthMap_january: "monthMap ''january'' = Number 0"
  by (simp add: monthMap_def monthTable_def)

lemma january_falsy: "\<not> truthy (monthMap ''january'')"
  by (simp add: monthMap_january truthy_def)

lemma valid_month_january: "valid_month ''january''"
  by (simp add: valid_month_def monthTable_def)

text \<open>
  A route that finds the table entry falsy answers 400 and leaves the store as it was:
  no query is sent.
\<close>

lemma statistics_route_rejects:
  "\<not> truthy (monthMap (toLowerCase param)) \<Longrightarrow>
   statistics_route e param s = (Status400 ''Invalid month'', s)"
  by (simp add: statistics_route_def)

lemma barChart_route_rejects:
  "\<not> truthy (monthMap (toLowerCase param)) \<Longrightarrow>
   barChart_route e param s = (Status400 ''Invalid month'', s)"
  by (simp add: barChart_route_def)

lemma pieChart_route_rejects:
  "\<not> truthy (monthMap (toLowerCase param)) \<Longrightarrow>
   pieChart_route e param s = (Status400 ''Invalid month'', s)"
  by (simp add: pieChart_route_def)

lemma combined_route_rejects:
  "\<not> truthy (monthMap (toLowerCase param)) \<Longrightarrow>
   combined_route e param s = (Status400 ''Invalid month'', s)"
  by (simp add: combined_route_def)

lemma try_catch_not_400: "fst (try_catch body message s) \<noteq> Status400 m"
  by (simp add: try_catch_def split: prod.split sum.split)

text \<open>Conversely an entry that is truthy is never answered with 400.\<close>

lemma statistics_route_400_iff:
  "(fst (statistics_route e param s) = Status400 ''Invalid month'') =
   (\<not> truthy (monthMap (toLowerCase param)))"
  by (simp add: statistics_route_def Let_def try_catch_not_400 split: prod.split)

lemma barChart_route_400_iff:
  "(fst (barChart_route e param s) = Status400 ''Invalid month'') =
   (\<not> truthy (monthMap (toLowerCase param)))"
  by (simp add: barChart_route_def Let_def try_catch_not_400 split: prod.split)

lemma pieChart_route_400_iff:
  "(fst (pieChart_route e param s) = Status400 ''Invalid month'') =
   (\<not> truthy (monthMap (toLowerCase param)))"
  by (simp add: pieChart_route_def Let_def try_catch_not_400 split: prod.split)

lemma combined_route_400_iff:
  "(fst (combined_route e param s) = Status400 ''Invalid month'') =
   (\<not> truthy (monthMap (toLowerCase param)))"
  by (simp add: combined_route_def Let_def try_catch_not_400 split: prod.split)

text \<open>
  The entries that pass the test: the eleven months after January, whose index is not
  zero, and the two inherited keys.
\<close>

lemma truthy_monthMap_iff:
  "truthy (monthMap m) =
   ((valid_month m \<and> m \<noteq> ''january'') \<or> m = ''constructor'' \<or> m = ''__proto__'')"
  by (auto simp add: monthMap_def monthTable_def valid_month_def truthy_def)

lemma inherited_key_passes: "truthy (monthMap (toLowerCase ''constructor''))"
  by (simp add: truthy_monthMap_iff toLowerCase_def lower_char_def)

text \<open>
  Claim C1. Every month-scoped route reports "invalid month" exactly for the names that
  are not month names, and accepts every month name, January included. The routes test
  the table entry for truth, and the entry of January is the number 0: the four routes
  answer the request for January with 400 "Invalid month", on every store and in every
  year, without a query.
\<close>

theorem january_is_reported_invalid:
  "valid_month (toLowerCase ''january'') \<and>
   statistics_route e ''january'' s = (Status400 ''Invalid month'', s) \<and>
   barChart_route e ''january'' s = (Status400 ''Invalid month'', s) \<and>
   pieChart_route e ''january'' s = (Status400 ''Invalid month'', s) \<and>
   combined_route e ''january'' s = (Status400 ''Invalid month'', s)"
  using january_falsy
  by (simp add: toLowerCase_january valid_month_january statistics_route_rejects
      barChart_route_rejects pieChart_route_rejects combined_route_rejects)

section \<open>The interval of a month\<close>

lemma first_day_le_last_day:
  "MakeDay y i 1 \<le> MakeDay y i (days_in_month y i)"
  by (simp add: MakeDay_def days_in_month_def Let_def)

lemma last_day_left_out:
  assumes "monthMap m = Number i" "0 \<le> i" "i \<le> 11" "clock_ok e"
    and "getStartEndDate e m = (Some a, Some b)"
    and "local_day e t = MakeDay (year e) i (days_in_month (year e) i)" "t \<noteq> b"
  shows "in_month e i t \<and> \<not> (a \<le> t \<and> t \<le> b)"
proof -
  have "in_month e i t"
    using assms(6) first_day_le_last_day [of "year e" i] by (simp add: in_month_def)
  moreover have "\<not> (a \<le> t \<and> t \<le> b)"
    unfolding interval_is_month_but_last_day [OF assms(1-5)] using assms(6,7) by simp
  ultimately show ?thesis by simp
qed

text \<open>
  Claim C2. For every month name the start date is the first day of the month at 00:00:00
  and the end date lies on the last day of the month, and the interval from the one to the
  other holds exactly the records of the calendar days of the month. The end date is the
  first instant of the last day, so a record sold later on that day is outside: in 2022,
  with local time UTC, a sale at noon of 31 March (time value 1648728000000) lies on a
  day of March and is not selected by the filter of March.
\<close>

theorem sale_on_last_day_is_outside:
  "getStartEndDate \<lparr>year = 2022, tz = 0\<rparr> (toLowerCase ''March'') =
     (Some 1646092800000, Some 1648684800000) \<and>
   in_month \<lparr>year = 2022, tz = 0\<rparr> 2 1648728000000 \<and>
   \<not> matches (month_filter \<lparr>year = 2022, tz = 0\<rparr> (toLowerCase ''March''))
       \<lparr>title = Some ''Lamp'', description = Some ''Desk lamp'', price = Some 40,
        dateOfSale = Some 1648728000000, category = Some ''home''\<rparr>"
proof -
  have l: "toLowerCase ''March'' = ''march''"
    by (simp add: toLowerCase_def lower_char_def)
  have m: "monthMap ''march'' = Number 2"
    by (simp add: monthMap_def monthTable_def)
  have d: "MakeDay 2022 2 1 = 19052" "MakeDay 2022 3 0 = 19082" "MakeDay 2022 2 31 = 19082"
    by (simp_all add: MakeDay_def month_start_def DayFromYear_def DaysInYear_def)
  have g: "getStartEndDate \<lparr>year = 2022, tz = 0\<rparr> ''march'' =
     (Some 1646092800000, Some 1648684800000)"
    by (simp add: getStartEndDate_def m ToNumber_def plus_one_def newDate_def d TimeClip_def
        msPerDay_def)
  have i: "in_month \<lparr>year = 2022, tz = 0\<rparr> 2 1648728000000"
    by (simp add: in_month_def local_day_def d days_in_month_def DaysInYear_def msPerDay_def)
  show ?thesis
    by (simp add: l g i month_filter_def encode_def)
qed


section \<open>The store: properties\<close>

lemma docs_advance: "docs (advance s) = docs s"
  by (simp add: advance_def)

lemma answers_Suc: "answers (Suc n) s \<Longrightarrow> \<not> head_fault s \<and> answers n (advance s)"
  by (cases "faults s") (auto simp add: answers_def head_fault_def advance_def)

section \<open>Bar chart: properties\<close>

lemma tally_bucket_index: "tally rs t = increment (bucket_index (price t)) rs"
  by (simp add: tally_def bucket_index_def Let_def)

lemma bucket_index_less: "bucket_index p < 10"
  by (simp add: bucket_index_def)

lemma length_increment: "length (increment i rs) = length rs"
  by (simp add: increment_def)

lemma labels_increment: "map fst (increment i rs) = map fst rs"
proof (cases "i < length rs")
  case True
  then show ?thesis
    by (simp add: increment_def map_update list_update_same_conv)
next
  case False
  then show ?thesis by (simp add: increment_def list_update_beyond)
qed

lemma count_increment:
  "j < length rs \<Longrightarrow> snd (increment i rs ! j) = snd (rs ! j) + (if i = j then 1 else 0)"
  by (simp add: increment_def nth_list_update)

lemma length_tallies: "length (foldl tally rs ts) = length rs"
  by (induction ts arbitrary: rs) (simp_all add: tally_bucket_index length_increment)

lemma labels_tallies: "map fst (foldl tally rs ts) = map fst rs"
  by (induction ts arbitrary: rs) (simp_all add: tally_bucket_index labels_increment)

lemma count_tallies:
  "j < length rs \<Longrightarrow>
   snd (foldl tally rs ts ! j) = snd (rs ! j) + length (filter (\<lambda>t. bucket_index (price t) = j) ts)"
proof (induction ts arbitrary: rs)
  case Nil
  then show ?case by simp
next
  case (Cons t ts)
  have "j < length (tally rs t)"
    using Cons.prems by (simp add: tally_bucket_index length_increment)
  from Cons.IH [OF this] Cons.prems show ?case
    by (simp add: tally_bucket_index count_increment)
qed

lemma sum_increment:
  "i < length rs \<Longrightarrow> counted (increment i rs) = counted rs + 1"
proof -
  assume i: "i < length rs"
  have "map snd (increment i rs) = (map snd rs)[i := snd (rs ! i) + 1]"
    by (simp add: increment_def map_update)
  then show ?thesis
    using i by (simp add: counted_def sum_list_update)
qed

lemma sum_tallies:
  "length rs = 10 \<Longrightarrow> counted (foldl tally rs ts) = counted rs + length ts"
proof (induction ts arbitrary: rs)
  case Nil
  then show ?case by simp
next
  case (Cons t ts)
  have l: "length (tally rs t) = 10"
    using Cons.prems by (simp add: tally_bucket_index length_increment)
  have "counted (tally rs t) = counted rs + 1"
    using Cons.prems bucket_index_less [of "price t"]
    by (simp add: tally_bucket_index sum_increment)
  with Cons.IH [OF l] show ?case by simp
qed

lemma length_priceRanges: "length priceRanges = 10"
  by (simp add: priceRanges_def)

lemma counted_priceRanges: "counted priceRanges = 0"
  by (simp add: priceRanges_def counted_def)


section \<open>The helpers of the combined route\<close>

lemma getBarChart_result:
  "getBarChart e m s =
     (if \<not> cast_ok (month_filter e m) then (Inl CastError, s)
      else (if head_fault s then Inl StoreError
            else Inr (foldl tally priceRanges (in_range e m (docs s))), advance s))"
  by (simp add: getBarChart_def month_filter_def in_range_def await_def find_def answer_def
      return_io_def split: prod.splits)

lemma getPieChart_result:
  "getPieChart e m s =
     (if head_fault s then Inl StoreError
      else Inr (foldl (\<lambda>gs d. add_to_group (category d) gs) [] (in_range e m (docs s))),
      advance s)"
  by (simp add: getPieChart_def month_filter_def in_range_def aggregate_by_category_def
      answer_def split: prod.splits)

lemma getStatistics_result:
  "getStatistics e m s =
     (if \<not> cast_ok (month_filter e m) then (Inl CastError, s)
      else if head_fault s then (Inl StoreError, advance s)
      else if head_fault (advance s) then (Inl StoreError, advance (advance s))
      else (if head_fault (advance (advance s)) then Inl StoreError
            else Inr \<lparr>totalSales = sum_list (map price_or_0 (in_range e m (docs s))),
                      soldItems = length (in_range e m (docs s)),
                      notSoldItems = length (before_range e m (docs s))\<rparr>,
            advance (advance (advance s))))"
proof -
  obtain a b where ab: "getStartEndDate e m = (a, b)" by (cases "getStartEndDate e m")
  show ?thesis
    by (simp add: getStatistics_def month_filter_def before_filter_def in_range_def
        before_range_def ab await_def countDocuments_def aggregate_total_def answer_def
        return_io_def docs_advance first_total_or_0_def Let_def)
qed

text \<open>Each route is the validity test followed by its helper inside the handler.\<close>

lemma statistics_route_helper:
  "statistics_route e param s =
     (if \<not> truthy (monthMap (toLowerCase param)) then (Status400 ''Invalid month'', s)
      else try_catch (getStatistics e (toLowerCase param)) ''Failed to retrieve statistics'' s)"
  by (simp add: statistics_route_def getStatistics_def Let_def split: prod.splits)

lemma barChart_route_helper:
  "barChart_route e param s =
     (if \<not> truthy (monthMap (toLowerCase param)) then (Status400 ''Invalid month'', s)
      else try_catch (getBarChart e (toLowerCase param)) ''Failed to retrieve bar chart data'' s)"
  by (simp add: barChart_route_def getBarChart_def Let_def split: prod.splits)

lemma await_return: "await m return_io = m"
  by (rule ext) (simp add: await_def return_io_def split: prod.splits sum.splits)

lemma pieChart_route_helper:
  "pieChart_route e param s =
     (if \<not> truthy (monthMap (toLowerCase param)) then (Status400 ''Invalid month'', s)
      else try_catch (getPieChart e (toLowerCase param)) ''Failed to retrieve pie chart data'' s)"
  by (simp add: pieChart_route_def getPieChart_def Let_def await_return split: prod.splits)


section \<open>The monthly routes: results\<close>

lemma valid_month_cast_ok:
  assumes "valid_month m" "clock_ok e"
  shows "cast_ok (month_filter e m)"
proof -
  obtain i where "monthMap m = Number i" "0 \<le> i" "i \<le> 11"
    using valid_month_index [OF assms(1)] by blast
  from getStartEndDate_valid [OF this assms(2)] show ?thesis
    by (simp add: month_filter_def)
qed

lemma counted_add_to_group: "counted (add_to_group k gs) = counted gs + 1"
  by (induction gs) (auto simp add: counted_def)

lemma counted_groups:
  "counted (foldl (\<lambda>gs d. add_to_group (f d) gs) gs0 ds) = counted gs0 + length ds"
  by (induction ds arbitrary: gs0) (simp_all add: counted_add_to_group)

lemma statistics_route_200:
  assumes "statistics_route e param s = (Status200 st, s')"
  shows "st = \<lparr>totalSales = sum_list (map price_or_0 (in_range e (toLowerCase param) (docs s))),
               soldItems = length (in_range e (toLowerCase param) (docs s)),
               notSoldItems = length (before_range e (toLowerCase param) (docs s))\<rparr>"
  using assms
  by (simp add: statistics_route_helper getStatistics_result try_catch_def split: if_splits)

lemma barChart_route_200:
  assumes "barChart_route e param s = (Status200 buckets, s')"
  shows "buckets = foldl tally priceRanges (in_range e (toLowerCase param) (docs s))"
  using assms
  by (simp add: barChart_route_helper getBarChart_result try_catch_def split: if_splits)

lemma pieChart_route_200:
  assumes "pieChart_route e param s = (Status200 groups, s')"
  shows "groups = foldl (\<lambda>gs d. add_to_group (category d) gs) []
                    (in_range e (toLowerCase param) (docs s))"
  using assms
  by (simp add: pieChart_route_helper getPieChart_result try_catch_def split: if_splits)

text \<open>
  On a store that answers, a month that passes the test and has valid dates gets its
  data.
\<close>

lemma statistics_route_answered:
  assumes "truthy (monthMap (toLowerCase param))" "cast_ok (month_filter e (toLowerCase param))"
    "answers 3 s"
  shows "statistics_route e param s =
    (Status200 \<lparr>totalSales = sum_list (map price_or_0 (in_range e (toLowerCase param) (docs s))),
               soldItems = length (in_range e (toLowerCase param) (docs s)),
               notSoldItems = length (before_range e (toLowerCase param) (docs s))\<rparr>,
     advance (advance (advance s)))"
proof -
  have "answers (Suc (Suc (Suc 0))) s" using assms(3) by (simp add: numeral_3_eq_3)
  then have "\<not> head_fault s" "\<not> head_fault (advance s)" "\<not> head_fault (advance (advance s))"
    by (blast dest: answers_Suc)+
  then show ?thesis
    using assms(1,2) by (simp add: statistics_route_helper getStatistics_result try_catch_def)
qed

lemma barChart_route_answered:
  assumes "truthy (monthMap (toLowerCase param))" "cast_ok (month_filter e (toLowerCase param))"
    "answers 1 s"
  shows "barChart_route e param s =
    (Status200 (foldl tally priceRanges (in_range e (toLowerCase param) (docs s))), advance s)"
proof -
  have "\<not> head_fault s" using assms(3) answers_Suc [of 0 s] by simp
  then show ?thesis
    using assms(1,2) by (simp add: barChart_route_helper getBarChart_result try_catch_def)
qed

lemma pieChart_route_answered:
  assumes "truthy (monthMap (toLowerCase param))" "answers 1 s"
  shows "pieChart_route e param s =
    (Status200 (foldl (\<lambda>gs d. add_to_group (category d) gs) []
                  (in_range e (toLowerCase param) (docs s))), advance s)"
proof -
  have "\<not> head_fault s" using assms(2) answers_Suc [of 0 s] by simp
  then show ?thesis
    using assms(1) by (simp add: pieChart_route_helper getPieChart_result try_catch_def)
qed

lemma answers_mono: "answers n s \<Longrightarrow> m \<le> n \<Longrightarrow> answers m s"
  by (auto simp add: answers_def dest: in_set_takeD set_take_subset_set_take [THEN subsetD])


section \<open>Bar chart: the claims\<close>

text \<open>
  What the bar chart holds whenever the route answers with one: the ten labels in their
  order, in each bucket the number of selected records whose price falls to it, and in
  all buckets together the number of selected records. A price of 100 falls to the first
  bucket and a price of 101 to the second.
\<close>

lemma barChart_labels:
  assumes "barChart_route e param s = (Status200 buckets, s')"
  shows "map fst buckets =
    [''0-100'', ''101-200'', ''201-300'', ''301-400'', ''401-500'', ''501-600'', ''601-700'',
     ''701-800'', ''801-900'', ''901-above'']"
  unfolding barChart_route_200 [OF assms] labels_tallies by (simp add: priceRanges_def)

lemma barChart_bucket:
  assumes "barChart_route e param s = (Status200 buckets, s')" "j < 10"
  shows "snd (buckets ! j) =
    length (filter (\<lambda>d. bucket_index (price d) = j) (in_range e (toLowerCase param) (docs s)))"
proof -
  have "\<forall>r \<in> set priceRanges. snd r = 0"
    by (simp add: priceRanges_def)
  then have "snd (priceRanges ! j) = 0"
    using assms(2) nth_mem [of j priceRanges] by (simp add: length_priceRanges)
  then show ?thesis
    unfolding barChart_route_200 [OF assms(1)]
    using assms(2) count_tallies [of j priceRanges] by (simp add: length_priceRanges)
qed

lemma barChart_sum:
  assumes "barChart_route e param s = (Status200 buckets, s')"
  shows "counted buckets = length (in_range e (toLowerCase param) (docs s))"
  unfolding barChart_route_200 [OF assms]
  by (simp add: sum_tallies length_priceRanges counted_priceRanges)

lemma bucket_of_100: "bucket_index (Some 100) = 0"
  by (simp add: bucket_index_def price_le_def)

lemma bucket_of_101: "bucket_index (Some 101) = 1"
  by (simp add: bucket_index_def price_le_def)

lemma first_bucket_iff: "(bucket_index p = 0) = price_le p 100"
  by (simp add: bucket_index_def)

text \<open>
  Claim C3. For every valid month the bar chart route returns the ten buckets, with each
  record of the date range in exactly one of them and the counts adding up to the number
  of those records. The month January is valid, and the route answers it with 400
  "Invalid month" and no bucket, whatever the store holds: the zero entry of the month
  table, as in claim C1.
\<close>

theorem barChart_of_january_is_refused:
  "fst (barChart_route e ''January'' s) = Status400 ''Invalid month'' \<and>
   (\<forall>buckets s'. barChart_route e ''January'' s \<noteq> (Status200 buckets, s'))"
  using january_falsy
  by (simp add: barChart_route_rejects toLowerCase_January)

text \<open>
  Claim C9. The first bucket has no lower bound: whenever the route answers with a bar
  chart, its first bucket is labelled 0-100 and counts every selected record whose price
  is at most 100, a negative price included.
\<close>

theorem first_bucket_has_no_lower_bound:
  assumes "barChart_route e param s = (Status200 buckets, s')"
  shows "buckets ! 0 =
    (''0-100'', length (filter (\<lambda>d. \<exists>p. price d = Some p \<and> p \<le> 100)
                        (in_range e (toLowerCase param) (docs s))))"
proof -
  have "length buckets = 10"
    unfolding barChart_route_200 [OF assms] by (simp add: length_tallies length_priceRanges)
  then have "fst (buckets ! 0) = map fst buckets ! 0"
    by simp
  then have "fst (buckets ! 0) = ''0-100''"
    unfolding barChart_labels [OF assms] by simp
  moreover have eq: "(bucket_index (price d) = 0) = (\<exists>p. price d = Some p \<and> p \<le> 100)" for d
    by (auto simp add: first_bucket_iff price_le_def split: option.splits)
  have "snd (buckets ! 0) = length (filter (\<lambda>d. \<exists>p. price d = Some p \<and> p \<le> 100)
      (in_range e (toLowerCase param) (docs s)))"
    using barChart_bucket [OF assms, of 0] by (simp add: eq)
  ultimately show ?thesis
    by (simp add: prod_eq_iff)
qed


section \<open>Sample data: evaluation\<close>

lemma toLowerCase_march: "toLowerCase ''march'' = ''march''"
  by (simp add: toLowerCase_def lower_char_def)

lemma monthMap_march: "monthMap ''march'' = Number 2"
  by (simp add: monthMap_def monthTable_def)

lemma march_2022: "getStartEndDate utc_2022 ''march'' = (Some 1646092800000, Some 1648684800000)"
proof -
  have "MakeDay 2022 2 1 = 19052" "MakeDay 2022 3 0 = 19082"
    by (simp_all add: MakeDay_def month_start_def DayFromYear_def DaysInYear_def)
  then show ?thesis
    by (simp add: getStartEndDate_def monthMap_march ToNumber_def plus_one_def newDate_def
        TimeClip_def msPerDay_def utc_2022_def)
qed

lemma in_range_shop: "in_range utc_2022 ''march'' (docs shop) = [refund, lamp, desk]"
  by (simp add: in_range_def month_filter_def march_2022 shop_def encode_def refund_def
      lamp_def desk_def chair_def)

lemma before_range_shop: "before_range utc_2022 ''march'' (docs shop) = [chair]"
  by (simp add: before_range_def before_filter_def march_2022 shop_def encode_def refund_def
      lamp_def desk_def chair_def)

lemma shop_answers: "answers n shop"
  by (simp add: answers_def shop_def)

lemma march_accepted: "truthy (monthMap (toLowerCase ''march''))"
  by (simp add: toLowerCase_march monthMap_march truthy_def)

lemma march_cast_ok: "cast_ok (month_filter utc_2022 (toLowerCase ''march''))"
  by (simp add: toLowerCase_march month_filter_def march_2022)

lemma barChart_shop:
  "barChart_route utc_2022 ''march'' shop =
     (Status200 [(''0-100'', 2), (''101-200'', 1), (''201-300'', 0), (''301-400'', 0),
        (''401-500'', 0), (''501-600'', 0), (''601-700'', 0), (''701-800'', 0),
        (''801-900'', 0), (''901-above'', 0)], advance shop)"
  unfolding barChart_route_answered [OF march_accepted march_cast_ok shop_answers]
  by (simp add: toLowerCase_march in_range_shop tally_def price_le_def increment_def
      priceRanges_def refund_def lamp_def desk_def)

lemma statistics_shop:
  "statistics_route utc_2022 ''march'' shop =
     (Status200 \<lparr>totalSales = 161, soldItems = 3, notSoldItems = 1\<rparr>,
      advance (advance (advance shop)))"
  unfolding statistics_route_answered [OF march_accepted march_cast_ok shop_answers]
  by (simp add: toLowerCase_march in_range_shop before_range_shop price_or_0_def refund_def
      lamp_def desk_def)

lemma pieChart_shop:
  "pieChart_route utc_2022 ''march'' shop =
     (Status200 [(Some ''home'', 2), (Some ''office'', 1)], advance shop)"
  unfolding pieChart_route_answered [OF march_accepted shop_answers]
  by (simp add: toLowerCase_march in_range_shop refund_def lamp_def desk_def)

theorem first_bucket_has_no_lower_bound_witness:
  "barChart_route utc_2022 ''march'' shop =
     (Status200 [(''0-100'', 2), (''101-200'', 1), (''201-300'', 0), (''301-400'', 0),
        (''401-500'', 0), (''501-600'', 0), (''601-700'', 0), (''701-800'', 0),
        (''801-900'', 0), (''901-above'', 0)], advance shop) \<and>
   length (filter (\<lambda>d. \<exists>p. price d = Some p \<and> p \<le> 100) [refund, lamp, desk]) = 2 \<and>
   price refund = Some (- 40)"
  using first_bucket_has_no_lower_bound [OF barChart_shop]
  by (simp add: barChart_shop toLowerCase_march in_range_shop refund_def)


section \<open>Statistics: the claims\<close>

text \<open>
  What the statistics hold whenever the route answers with them: the number of selected
  records, the sum of their prices, which is 0 when none is selected, and the number of
  records dated before the start date.
\<close>

lemma statistics_values:
  assumes "statistics_route e param s = (Status200 st, s')"
  shows "soldItems st = length (in_range e (toLowerCase param) (docs s))"
    and "totalSales st = sum_list (map price_or_0 (in_range e (toLowerCase param) (docs s)))"
    and "notSoldItems st = length (before_range e (toLowerCase param) (docs s))"
  unfolding statistics_route_200 [OF assms] by simp_all

lemma statistics_nothing_sold:
  assumes "statistics_route e param s = (Status200 st, s')"
    and "in_range e (toLowerCase param) (docs s) = []"
  shows "totalSales st = 0"
  unfolding statistics_route_200 [OF assms(1)] using assms(2) by simp

lemma in_range_iff:
  assumes "getStartEndDate e m = (Some a, Some b)"
  shows "d \<in> set (in_range e m ds) =
    (d \<in> set ds \<and> (\<exists>t. dateOfSale d = Some t \<and> a \<le> t \<and> t \<le> b))"
  by (auto simp add: in_range_def month_filter_def assms encode_def split: option.splits)

lemma before_range_iff:
  assumes "getStartEndDate e m = (Some a, Some b)"
  shows "d \<in> set (before_range e m ds) =
    (d \<in> set ds \<and> (\<exists>t. dateOfSale d = Some t \<and> t < a))"
  by (auto simp add: before_range_def before_filter_def assms encode_def split: option.splits)

text \<open>
  Claim C4. For every valid month the statistics route returns the number of records sold
  in the date range, the sum of their prices and the number of records dated before the
  start date. The month January is valid, and the route answers it with 400
  "Invalid month" and no statistics, whatever the store holds: the zero entry of the month
  table, as in claim C1.
\<close>

theorem statistics_of_january_are_refused:
  "fst (statistics_route e ''JANUARY'' s) = Status400 ''Invalid month'' \<and>
   (\<forall>st s'. statistics_route e ''JANUARY'' s \<noteq> (Status200 st, s'))"
proof -
  have "toLowerCase ''JANUARY'' = ''january''"
    by (simp add: toLowerCase_def lower_char_def)
  then show ?thesis
    using january_falsy by (simp add: statistics_route_rejects)
qed

section \<open>The three aggregations together\<close>

text \<open>
  Claim C10. For every valid month and fixed store contents the three monthly
  aggregations agree on the size of the population: what the pie chart counts in its
  categories and what the bar chart counts in its buckets is the number of sold items of
  the statistics. For January none of the three carries data.
\<close>

theorem monthly_aggregations_agree:
  assumes "valid_month (toLowerCase param)" "clock_ok e" "answers 3 s"
  shows "population counted (fst (pieChart_route e param s)) =
           population soldItems (fst (statistics_route e param s)) \<and>
         population counted (fst (barChart_route e param s)) =
           population soldItems (fst (statistics_route e param s))"
proof (cases "truthy (monthMap (toLowerCase param))")
  case True
  have c: "cast_ok (month_filter e (toLowerCase param))"
    using assms(1,2) by (rule valid_month_cast_ok)
  have a1: "answers 1 s"
    using assms(3) by (rule answers_mono) simp
  have z: "counted ([] :: (string option \<times> nat) list) = 0"
    by (simp add: counted_def)
  show ?thesis
    unfolding statistics_route_answered [OF True c assms(3)]
      barChart_route_answered [OF True c a1] pieChart_route_answered [OF True a1]
    by (simp add: population_def counted_groups sum_tallies length_priceRanges
        counted_priceRanges z)
next
  case False
  then show ?thesis
    by (simp add: statistics_route_rejects barChart_route_rejects pieChart_route_rejects
        population_def)
qed

theorem monthly_aggregations_agree_witness:
  "valid_month (toLowerCase ''march'') \<and> clock_ok utc_2022 \<and> answers 3 shop \<and>
   population counted (fst (pieChart_route utc_2022 ''march'' shop)) = Some 3 \<and>
   population counted (fst (barChart_route utc_2022 ''march'' shop)) = Some 3 \<and>
   population soldItems (fst (statistics_route utc_2022 ''march'' shop)) = Some 3"
proof -
  have v: "valid_month (toLowerCase ''march'')"
    by (simp add: toLowerCase_march valid_month_def monthTable_def)
  have c: "clock_ok utc_2022"
    by (simp add: clock_ok_def utc_2022_def msPerDay_def)
  show ?thesis
    using monthly_aggregations_agree [OF v c shop_answers]
    by (simp add: v c shop_answers statistics_shop population_def)
qed


section \<open>The combined route\<close>

text \<open>A route changes neither the documents of the store nor, on a store without failures, its schedule.\<close>

lemma docs_after_statistics: "docs (snd (statistics_route e param s)) = docs s"
  by (simp add: statistics_route_helper getStatistics_result try_catch_def docs_advance)

lemma docs_after_barChart: "docs (snd (barChart_route e param s)) = docs s"
  by (simp add: barChart_route_helper getBarChart_result try_catch_def docs_advance)

lemma docs_after_pieChart: "docs (snd (pieChart_route e param s)) = docs s"
  by (simp add: pieChart_route_helper getPieChart_result try_catch_def docs_advance)

text \<open>
  Claim C7. The combined route returns the statistics, the bar chart and the pie chart
  that the three routes return for the same month, and fails when one of them fails. The
  combined route runs the three computations one after the other against the store, and
  its response is the combined report of the specification: the response of the three
  routes run in that order, each on the store as the one before left it (a store that
  differs in the queries counted and the failures to come, not in its documents). That is
  the three bodies when all three succeed, status 500 with the error of the first that
  fails, and status 400 when the month is refused.
\<close>

theorem combined_is_the_three_routes:
  "combined_route e param s = combined_spec e param s"
proof (cases "truthy (monthMap (toLowerCase param))")
  case False
  then show ?thesis
    by (simp add: combined_spec_def combined_route_rejects statistics_route_rejects)
next
  case True
  obtain r1 s1 where 1: "getStatistics e (toLowerCase param) s = (r1, s1)"
    by (cases "getStatistics e (toLowerCase param) s")
  obtain r2 s2 where 2: "getBarChart e (toLowerCase param) s1 = (r2, s2)"
    by (cases "getBarChart e (toLowerCase param) s1")
  obtain r3 s3 where 3: "getPieChart e (toLowerCase param) s2 = (r3, s3)"
    by (cases "getPieChart e (toLowerCase param) s2")
  show ?thesis
    using True 1 2 3
    by (cases r1; cases r2; cases r3)
      (simp_all add: combined_spec_def combined_route_def statistics_route_helper
        barChart_route_helper
        pieChart_route_helper try_catch_def await_def return_io_def)
qed

text \<open>
  On a store that answers the five queries the responses of the three routes do not depend
  on the order: each of them, invoked on the store as it is, gives the part that the
  combined response holds.
\<close>

lemma combined_of_independent_routes:
  assumes "answers 5 s"
    and "statistics_route e param s = (Status200 st, s1)"
    and "barChart_route e param s = (Status200 bc, s2)"
    and "pieChart_route e param s = (Status200 pc, s3)"
  shows "fst (combined_route e param s) =
    Status200 \<lparr>statistics = st, barChart = bc, pieChart = pc\<rparr>"
proof -
  have t: "truthy (monthMap (toLowerCase param))"
    using assms(2) by (auto simp add: statistics_route_helper split: if_splits)
  have c: "cast_ok (month_filter e (toLowerCase param))"
    using assms(2) t
    by (auto simp add: statistics_route_helper getStatistics_result try_catch_def
        split: if_splits)
  have "answers (Suc (Suc (Suc (Suc (Suc 0))))) s"
    using assms(1) by (simp add: eval_nat_numeral)
  then have h: "\<not> head_fault s" "\<not> head_fault (advance s)" "\<not> head_fault (advance (advance s))"
    "\<not> head_fault (advance (advance (advance s)))"
    "\<not> head_fault (advance (advance (advance (advance s))))"
    by (blast dest: answers_Suc)+
  have "st = \<lparr>totalSales = sum_list (map price_or_0 (in_range e (toLowerCase param) (docs s))),
               soldItems = length (in_range e (toLowerCase param) (docs s)),
               notSoldItems = length (before_range e (toLowerCase param) (docs s))\<rparr>"
    using assms(2) by (rule statistics_route_200)
  moreover have "bc = foldl tally priceRanges (in_range e (toLowerCase param) (docs s))"
    using assms(3) by (rule barChart_route_200)
  moreover have "pc = foldl (\<lambda>gs d. add_to_group (category d) gs) []
                    (in_range e (toLowerCase param) (docs s))"
    using assms(4) by (rule pieChart_route_200)
  ultimately show ?thesis
    using t c h
    by (simp add: combined_route_def getStatistics_result getBarChart_result
        getPieChart_result try_catch_def await_def return_io_def docs_advance Let_def)
qed


section \<open>The search filter\<close>

text \<open>
  A search text without syntax characters is compiled to the pattern of its characters,
  and that pattern matches a field exactly when the field contains the text, case ignored.
\<close>

lemma RegExp_literal: "\<not> list_ex syntax_character p \<Longrightarrow> RegExp p = Some (map Lit p)"
proof (induction p)
  case Nil
  then show ?case by simp
next
  case (Cons c p)
  then have "c \<noteq> CHR ''.''"
    by (auto simp add: syntax_character_def)
  with Cons show ?case by simp
qed

lemma match_here_literal:
  "match_here (map Lit p) t = prefix (toLowerCase p) (toLowerCase t)"
proof (induction p arbitrary: t)
  case Nil
  then show ?case by (simp add: toLowerCase_def)
next
  case (Cons c p)
  then show ?case by (cases t) (simp_all add: toLowerCase_def)
qed

lemma test_literal: "test (map Lit p) t = contains_ignoring_case p t"
proof (induction t)
  case Nil
  then show ?case
    by (cases p) (simp_all add: contains_ignoring_case_def toLowerCase_def)
next
  case (Cons c t)
  have "test (map Lit p) (c # t) = (match_here (map Lit p) (c # t) \<or> test (map Lit p) t)"
    by simp
  also have "\<dots> = (prefix (toLowerCase p) (toLowerCase (c # t)) \<or>
      sublist (toLowerCase p) (toLowerCase t))"
    using Cons by (simp only: match_here_literal contains_ignoring_case_def)
  also have "\<dots> = sublist (toLowerCase p) (toLowerCase (c # t))"
    by (simp add: toLowerCase_def sublist_Cons_right)
  finally show ?case by (simp add: contains_ignoring_case_def)
qed

lemma test_empty: "test [] t"
  by (cases t) simp_all

lemma contains_empty: "contains_ignoring_case [] t"
  by (simp add: contains_ignoring_case_def toLowerCase_def)

lemma transactions_query_literal:
  "\<not> list_ex syntax_character search \<Longrightarrow>
   transactions_query search =
     Some (Or [TitleRegExp (map Lit search), DescriptionRegExp (map Lit search),
               if search \<noteq> [] then PriceEq (parseFloat search) else PriceExists])"
  by (simp add: transactions_query_def RegExp_literal)

lemma literal_search_matches:
  assumes "\<not> list_ex syntax_character search"
  shows "matches (Or [TitleRegExp (map Lit search), DescriptionRegExp (map Lit search),
                      if search \<noteq> [] then PriceEq (parseFloat search) else PriceExists]) =
         search_spec search"
  by (rule ext)
    (auto simp add: search_spec_def test_literal test_empty contains_empty split: option.splits)

section \<open>Numbers read from text: evaluation\<close>

lemma to_double_150: "to_double 150 (Suc 0) = Finite 150"
  by (simp add: to_double_def floor_log2_def bit_length.simps round_half_even_def pow2_def)

lemma to_double_15: "to_double 15 10 = Finite (3 / 2)"
  by (simp add: to_double_def floor_log2_def bit_length.simps round_half_even_def pow2_def)

lemma parseFloat_150: "parseFloat ''150'' = Finite 150"
  by (simp add: parseFloat_def unsigned_literal_def is_space_def is_digit_def digit_value_def
      decimal_def exponent_part_def to_double_150)

lemma parseFloat_1_5: "parseFloat ''1.5'' = Finite (3 / 2)"
  by (simp add: parseFloat_def unsigned_literal_def is_space_def is_digit_def digit_value_def
      decimal_def exponent_part_def to_double_15)

lemma parseFloat_lamp: "parseFloat ''lamp'' = NaN"
  by (simp add: parseFloat_def unsigned_literal_def is_space_def is_digit_def digit_value_def)


section \<open>The transactions route\<close>

lemma transactions_query_cast_ok:
  assumes "transactions_query search = Some q"
  shows "cast_ok q = (search = [] \<or> parseFloat search \<noteq> NaN)"
  using assms by (auto simp add: transactions_query_def split: option.splits if_splits)

text \<open>For the empty search text the filter selects the records that have one of the three fields.\<close>

lemma transactions_query_empty:
  "transactions_query [] = Some (Or [TitleRegExp [], DescriptionRegExp [], PriceExists])"
  by (simp add: transactions_query_def)

lemma matches_empty_search:
  "matches (Or [TitleRegExp [], DescriptionRegExp [], PriceExists]) =
   (\<lambda>d. title d \<noteq> None \<or> description d \<noteq> None \<or> price d \<noteq> None)"
  by (rule ext) (auto simp add: test_empty split: option.splits)

lemma find_skip_limit_answered:
  assumes "cast_ok q" "0 \<le> n" "\<not> head_fault s"
  shows "find_skip_limit q n k s =
    (Inr (limit_docs k (drop (nat n) (filter (matches q) (docs s)))), advance s)"
  using assms by (simp add: find_skip_limit_def answer_def)

lemma countDocuments_answered:
  assumes "cast_ok q" "\<not> head_fault s"
  shows "countDocuments q s = (Inr (length (filter (matches q) (docs s))), advance s)"
  using assms by (simp add: countDocuments_def answer_def)

text \<open>
  The route on a store that answers, for a filter that passes the cast and a page and
  page size of at least 1.
\<close>

lemma transactions_route_answered:
  assumes "transactions_query (or_default [] search_param) = Some q"
    and "cast_ok q"
    and "1 \<le> or_default 1 page_param" and "1 \<le> or_default 10 perPage_param"
    and "answers 2 s"
  shows "transactions_route page_param perPage_param search_param s =
      Some (Status200
        \<lparr>transactions =
           take (nat (or_default 10 perPage_param))
             (drop (nat ((or_default 1 page_param - 1) * or_default 10 perPage_param))
               (filter (matches q) (docs s))),
         total = length (filter (matches q) (docs s))\<rparr>,
        advance (advance s))"
proof -
  define page where "page = or_default 1 page_param"
  define perPage where "perPage = or_default 10 perPage_param"
  have "answers (Suc (Suc 0)) s"
    using assms(5) by (simp add: numeral_2_eq_2)
  then have h: "\<not> head_fault s" "\<not> head_fault (advance s)"
    by (blast dest: answers_Suc)+
  have n: "0 \<le> (page - 1) * perPage"
    using assms(3,4) by (simp add: page_def perPage_def)
  have k: "limit_docs perPage xs = take (nat perPage) xs" for xs :: "Transaction list"
    using assms(4) by (simp add: limit_docs_def perPage_def)
  show ?thesis
    using assms(1) h
    by (simp add: transactions_route_def Let_def page_def [symmetric] perPage_def [symmetric]
        try_catch_def await_def return_io_def find_skip_limit_answered [OF assms(2) n]
        countDocuments_answered [OF assms(2)] docs_advance k)
qed

section \<open>The search predicate: the claim\<close>

text \<open>
  Claim C5, as amended. For every search text without a syntax character of regular
  expressions that is empty or from which parseFloat reads a number, the records that the
  transactions route selects are exactly those for which the title contains the text,
  case ignored, or the description does, or - the text not being empty - the price is
  the number that parseFloat reads from the text; for the empty text the last alternative
  is that the record has a price. The route pages and counts these records, on a store
  that answers and for a page and a page size of at least 1.
\<close>

theorem search_filter_of_literal_text:
  assumes "\<not> list_ex syntax_character search"
    and "search = [] \<or> parseFloat search \<noteq> NaN"
    and "1 \<le> or_default 1 page_param" and "1 \<le> or_default 10 perPage_param"
    and "answers 2 s"
  shows "transactions_route page_param perPage_param (Some search) s =
      Some (Status200
        \<lparr>transactions =
           take (nat (or_default 10 perPage_param))
             (drop (nat ((or_default 1 page_param - 1) * or_default 10 perPage_param))
               (filter (search_spec search) (docs s))),
         total = length (filter (search_spec search) (docs s))\<rparr>,
        advance (advance s))"
proof -
  let ?q = "Or [TitleRegExp (map Lit search), DescriptionRegExp (map Lit search),
                if search \<noteq> [] then PriceEq (parseFloat search) else PriceExists]"
  have q: "transactions_query (or_default [] (Some search)) = Some ?q"
    using assms(1) by (simp add: or_default_def transactions_query_literal)
  have c: "cast_ok ?q"
    using assms(2) by auto
  show ?thesis
    using transactions_route_answered [OF q c assms(3,4,5)]
    unfolding literal_search_matches [OF assms(1)] .
qed

lemma search_150_shop: "filter (search_spec ''150'') (docs shop) = [lamp, chair]"
proof -
  have c: "contains_ignoring_case ''150'' ''Desk lamp, 150 lumen''"
    unfolding test_literal [symmetric] by (simp add: lower_char_def)
  have n: "\<not> contains_ignoring_case ''150'' ''Refund''"
    "\<not> contains_ignoring_case ''150'' ''Returned lamp''"
    "\<not> contains_ignoring_case ''150'' ''Lamp''"
    "\<not> contains_ignoring_case ''150'' ''Desk''"
    "\<not> contains_ignoring_case ''150'' ''Oak desk''"
    "\<not> contains_ignoring_case ''150'' ''Chair''"
    "\<not> contains_ignoring_case ''150'' ''Office chair''"
    unfolding test_literal [symmetric] by (simp_all add: lower_char_def)
  show ?thesis
    by (simp add: search_spec_def shop_def refund_def lamp_def desk_def chair_def c n
        parseFloat_150)
qed

theorem search_filter_of_literal_text_witness:
  "\<not> list_ex syntax_character ''150'' \<and> parseFloat ''150'' = Finite 150 \<and>
   (1::int) \<le> or_default 1 None \<and> (1::int) \<le> or_default 10 None \<and> answers 2 shop \<and>
   transactions_route None None (Some ''150'') shop =
     Some (Status200 \<lparr>transactions = [lamp, chair], total = 2\<rparr>, advance (advance shop)) \<and>
   description lamp = Some ''Desk lamp, 150 lumen'' \<and> price chair = Some 150"
proof -
  have l: "\<not> list_ex syntax_character ''150''"
    by (simp add: syntax_character_def)
  have e: "''150'' = [] \<or> parseFloat ''150'' \<noteq> NaN"
    by (simp add: parseFloat_150)
  have p: "(1::int) \<le> or_default 1 None" "(1::int) \<le> or_default 10 None"
    by (simp_all add: or_default_def)
  have r: "transactions_route None None (Some ''150'') shop =
     Some (Status200 \<lparr>transactions = [lamp, chair], total = 2\<rparr>, advance (advance shop))"
    using search_filter_of_literal_text [OF l e p shop_answers]
    unfolding search_150_shop by (simp add: or_default_def)
  show ?thesis
    using l p shop_answers r by (simp add: parseFloat_150 lamp_def chair_def)
qed

text \<open>
  Claim C5, as stated, fails in two ways. The text 1.5 is read as a pattern whose dot
  stands for any character: the route selects the shelf by its title "125 cm shelf",
  although neither the title nor the description contains "1.5" and the price is not 1.5.
  For the text lamp the price of the filter is NaN, which the cast refuses: the route
  answers 500 and selects nothing, although the title of the lamp contains the text.
\<close>

theorem search_text_is_a_pattern:
  "transactions_route None None (Some ''1.5'') showroom =
     Some (Status200 \<lparr>transactions = [shelf], total = 1\<rparr>, advance (advance showroom)) \<and>
   \<not> search_spec ''1.5'' shelf \<and>
   map_option fst (transactions_route None None (Some ''lamp'') shop) =
     Some (Status500 ''Failed to retrieve transactions'' CastError) \<and>
   search_spec ''lamp'' lamp"
proof -
  let ?q = "Or [TitleRegExp [Lit CHR ''1'', Dot, Lit CHR ''5''],
                DescriptionRegExp [Lit CHR ''1'', Dot, Lit CHR ''5''],
                PriceEq (Finite (3 / 2))]"
  have q: "transactions_query (or_default [] (Some ''1.5'')) = Some ?q"
    by (simp add: or_default_def transactions_query_def syntax_character_def parseFloat_1_5)
  have c: "cast_ok ?q"
    by simp
  have p: "(1::int) \<le> or_default 1 None" "(1::int) \<le> or_default 10 None"
    by (simp_all add: or_default_def)
  have a: "answers 2 showroom"
    by (simp add: answers_def showroom_def)
  have f: "filter (matches ?q) (docs showroom) = [shelf]"
    by (simp add: showroom_def shelf_def lower_char_def)
  have 1: "transactions_route None None (Some ''1.5'') showroom =
     Some (Status200 \<lparr>transactions = [shelf], total = 1\<rparr>, advance (advance showroom))"
    using transactions_route_answered [OF q c p a] unfolding f by (simp add: or_default_def)
  have n: "\<not> contains_ignoring_case ''1.5'' ''125 cm shelf''"
    "\<not> contains_ignoring_case ''1.5'' ''Pine''"
    unfolding test_literal [symmetric] by (simp_all add: lower_char_def)
  have 2: "\<not> search_spec ''1.5'' shelf"
    by (simp add: search_spec_def shelf_def n parseFloat_1_5)
  have 3: "map_option fst (transactions_route None None (Some ''lamp'') shop) =
     Some (Status500 ''Failed to retrieve transactions'' CastError)"
    by (simp add: transactions_route_def or_default_def transactions_query_def
        syntax_character_def parseFloat_lamp try_catch_def await_def find_skip_limit_def
        del: matches.simps)
  have "contains_ignoring_case ''lamp'' ''Lamp''"
    unfolding test_literal [symmetric] by (simp add: lower_char_def)
  then have 4: "search_spec ''lamp'' lamp"
    by (simp add: search_spec_def lamp_def)
  show ?thesis
    using 1 2 3 4 by simp
qed

text \<open>
  Claim C6, as amended. For a page and a page size of at least 1 (1 and 10 when the
  request has none), a search text that is empty or begins with a number, and a store
  that answers the two queries, the route returns the records selected by the filter
  after skipping (page - 1) * perPage of them, at most perPage many, and as total the
  number of all selected records; for the empty search text the selected records are
  those that have a title, a description or a price.
\<close>

theorem transactions_page:
  assumes "transactions_query (or_default [] search_param) = Some q"
    and "or_default [] search_param = [] \<or> parseFloat (or_default [] search_param) \<noteq> NaN"
    and "1 \<le> or_default 1 page_param" and "1 \<le> or_default 10 perPage_param"
    and "answers 2 s"
  shows "transactions_route page_param perPage_param search_param s =
      Some (Status200
        \<lparr>transactions =
           take (nat (or_default 10 perPage_param))
             (drop (nat ((or_default 1 page_param - 1) * or_default 10 perPage_param))
               (filter (matches q) (docs s))),
         total = length (filter (matches q) (docs s))\<rparr>,
        advance (advance s)) \<and>
    (or_default [] search_param = [] \<longrightarrow>
      filter (matches q) (docs s) =
      filter (\<lambda>d. title d \<noteq> None \<or> description d \<noteq> None \<or> price d \<noteq> None) (docs s))"
proof -
  define page where "page = or_default 1 page_param"
  define perPage where "perPage = or_default 10 perPage_param"
  have c: "cast_ok q"
    using assms(1,2) by (simp add: transactions_query_cast_ok)
  have "answers (Suc (Suc 0)) s"
    using assms(5) by (simp add: numeral_2_eq_2)
  then have h: "\<not> head_fault s" "\<not> head_fault (advance s)"
    by (blast dest: answers_Suc)+
  have n: "0 \<le> (page - 1) * perPage"
    using assms(3,4) by (simp add: page_def perPage_def)
  have k: "limit_docs perPage xs = take (nat perPage) xs" for xs :: "Transaction list"
    using assms(4) by (simp add: limit_docs_def perPage_def)
  have 1: "transactions_route page_param perPage_param search_param s =
      Some (Status200
        \<lparr>transactions = take (nat perPage) (drop (nat ((page - 1) * perPage))
               (filter (matches q) (docs s))),
         total = length (filter (matches q) (docs s))\<rparr>,
        advance (advance s))"
    using assms(1) h
    by (simp add: transactions_route_def Let_def page_def [symmetric] perPage_def [symmetric]
        try_catch_def await_def return_io_def find_skip_limit_answered [OF c n]
        countDocuments_answered [OF c] docs_advance k)
  have 2: "or_default [] search_param = [] \<longrightarrow>
      filter (matches q) (docs s) =
      filter (\<lambda>d. title d \<noteq> None \<or> description d \<noteq> None \<or> price d \<noteq> None) (docs s)"
    using assms(1) by (auto simp add: transactions_query_empty matches_empty_search simp del: matches.simps)
  show ?thesis
    using 1 2 by (simp add: page_def perPage_def)
qed


lemma filter_empty_search_shop:
  "filter (matches (Or [TitleRegExp [], DescriptionRegExp [], PriceExists])) (docs shop) =
   [refund, lamp, desk, chair]"
  unfolding matches_empty_search
  by (simp add: shop_def refund_def lamp_def desk_def chair_def)

theorem transactions_page_witness:
  "transactions_query (or_default [] None) =
     Some (Or [TitleRegExp [], DescriptionRegExp [], PriceExists]) \<and>
   or_default [] None = ([] :: string) \<and>
   (1::int) \<le> or_default 1 (Some 2) \<and> (1::int) \<le> or_default 10 (Some 2) \<and> answers 2 shop \<and>
   transactions_route (Some 2) (Some 2) None shop =
     Some (Status200 \<lparr>transactions = [desk, chair], total = 4\<rparr>, advance (advance shop)) \<and>
   transactions_route None None None shop =
     Some (Status200 \<lparr>transactions = [refund, lamp, desk, chair], total = 4\<rparr>,
           advance (advance shop))"
proof -
  have q: "transactions_query (or_default [] None) =
     Some (Or [TitleRegExp [], DescriptionRegExp [], PriceExists])"
    by (simp add: or_default_def transactions_query_empty)
  have e: "or_default [] None = ([] :: string) \<or> parseFloat (or_default [] None) \<noteq> NaN"
    by (simp add: or_default_def)
  have p: "(1::int) \<le> or_default 1 (Some 2)" "(1::int) \<le> or_default 10 (Some 2)"
    "(1::int) \<le> or_default 1 None" "(1::int) \<le> or_default 10 None"
    by (simp_all add: or_default_def)
  have 1: "transactions_route (Some 2) (Some 2) None shop =
     Some (Status200 \<lparr>transactions = [desk, chair], total = 4\<rparr>, advance (advance shop))"
    using transactions_page [OF q e p(1,2) shop_answers, THEN conjunct1]
    unfolding filter_empty_search_shop by (simp add: or_default_def)
  have 2: "transactions_route None None None shop =
     Some (Status200 \<lparr>transactions = [refund, lamp, desk, chair], total = 4\<rparr>,
           advance (advance shop))"
    using transactions_page [OF q e p(3,4) shop_answers, THEN conjunct1]
    unfolding filter_empty_search_shop by (simp add: or_default_def)
  show ?thesis
    using q p(1,2) shop_answers 1 2 by (simp add: or_default_def)
qed

text \<open>
  Claim C6, as stated, fails in four ways. A record without title, description and price
  is not selected by the empty search text, so the total of the first page is not the
  number of all records. A page size of 0 is no limit to the store, which returns all
  four records. Page 0 makes the skip negative, which the store refuses. A search text
  that does not begin with a number makes the price of the filter NaN, which the cast to
  the schema refuses.
\<close>

theorem transactions_page_exceptions:
  "transactions_route (Some 1) (Some 10) (Some '''') attic =
     Some (Status200 \<lparr>transactions = [], total = 0\<rparr>, advance (advance attic)) \<and>
   length (docs attic) = 1 \<and>
   transactions_route (Some 1) (Some 0) (Some '''') shop =
     Some (Status200 \<lparr>transactions = [refund, lamp, desk, chair], total = 4\<rparr>,
           advance (advance shop)) \<and>
   map_option fst (transactions_route (Some 0) (Some 10) (Some '''') shop) =
     Some (Status500 ''Failed to retrieve transactions'' StoreError) \<and>
   map_option fst (transactions_route (Some 1) (Some 10) (Some ''lamp'') shop) =
     Some (Status500 ''Failed to retrieve transactions'' CastError)"
proof -
  have h: "\<not> head_fault shop" "\<not> head_fault (advance shop)"
    "\<not> head_fault attic" "\<not> head_fault (advance attic)"
    by (simp_all add: head_fault_def advance_def shop_def attic_def)
  have a: "filter (matches (Or [TitleRegExp [], DescriptionRegExp [], PriceExists])) (docs attic) = []"
    unfolding matches_empty_search by (simp add: attic_def bare_def)
  have 1: "transactions_route (Some 1) (Some 10) (Some '''') attic =
     Some (Status200 \<lparr>transactions = [], total = 0\<rparr>, advance (advance attic))"
    using h a
    by (simp add: transactions_route_def or_default_def transactions_query_empty try_catch_def
        await_def return_io_def find_skip_limit_def countDocuments_def answer_def docs_advance
        limit_docs_def del: matches.simps)
  have 2: "transactions_route (Some 1) (Some 0) (Some '''') shop =
     Some (Status200 \<lparr>transactions = [refund, lamp, desk, chair], total = 4\<rparr>,
           advance (advance shop))"
    using h filter_empty_search_shop
    by (simp add: transactions_route_def or_default_def transactions_query_empty try_catch_def
        await_def return_io_def find_skip_limit_def countDocuments_def answer_def docs_advance
        limit_docs_def del: matches.simps)
  have 3: "map_option fst (transactions_route (Some 0) (Some 10) (Some '''') shop) =
     Some (Status500 ''Failed to retrieve transactions'' StoreError)"
    by (simp add: transactions_route_def or_default_def transactions_query_empty try_catch_def
        await_def find_skip_limit_def del: matches.simps)
  have n: "parseFloat ''lamp'' = NaN"
    by (simp add: parseFloat_def unsigned_literal_def is_space_def is_digit_def digit_value_def)
  have 4: "map_option fst (transactions_route (Some 1) (Some 10) (Some ''lamp'') shop) =
     Some (Status500 ''Failed to retrieve transactions'' CastError)"
    by (simp add: transactions_route_def or_default_def transactions_query_def
        syntax_character_def n try_catch_def await_def find_skip_limit_def del: matches.simps)
  show ?thesis
    using 1 2 3 4 by (simp add: attic_def)
qed

section \<open>Startup: properties\<close>

lemma startup_rejected: "startup (Rejected err) = console_error (''Database connection error: '' @ err) initial_server"
  by (simp add: startup_def then_do_def catch_do_def)

lemma startup_fulfilled: "startup (Fulfilled ()) = app_listen initial_server"
  by (simp add: startup_def then_do_def catch_do_def)

text \<open>
  Claim C8. When the connection to the store fails at startup the service never begins to
  accept requests: after the startup the listener is up exactly when the promise of the
  connection was fulfilled.
\<close>

theorem listener_only_after_connection:
  "listening (startup outcome) = (outcome = Fulfilled ())"
  by (cases outcome)
    (simp_all add: startup_def then_do_def catch_do_def app_listen_def console_error_def
      initial_server_def)

end
